theory Spec2Isabelle
  imports Complex_Main "HOL-Library.AList"
begin

section \<open>Data model (game/types.ts)\<close>

text \<open>
  Block coordinates are integers everywhere the store receives them: generation computes
  them from integer chunk coordinates, and the click handler rounds with \<^verbatim>\<open>Math.round\<close>.
  A position \<^verbatim>\<open>{x, y, z}\<close> is a triple. The string key \<^verbatim>\<open>`${x},${y},${z}`\<close> of a
  \<^verbatim>\<open>Map\<close> is injective on integer triples and is never parsed, so the triple itself stands
  for the key; likewise the pair \<open>(chunkX, chunkZ)\<close> stands for the chunk key
  \<^verbatim>\<open>`${chunkX},${chunkZ}`\<close>. A block record still carries its own \<open>position\<close>, which a
  restored payload may give a value different from its key.
\<close>

datatype BlockType = Grass | Dirt | Stone | Wood | Sand | Snow | Water

type_synonym coord = "int \<times> int \<times> int"

record Block =
  position :: coord
  btype :: BlockType

record WaterBlock =
  wposition :: coord
  level :: real

text \<open>
  A JavaScript \<^verbatim>\<open>Map\<close> keeps its entries in insertion order; \<^verbatim>\<open>set\<close> on a present key
  replaces the value in place and on an absent key appends, \<^verbatim>\<open>delete\<close> removes the entry.
  That is an association list with \<^const>\<open>AList.update\<close>, \<^const>\<open>AList.delete\<close> and
  \<^const>\<open>map_of\<close>.
\<close>

record Chunk =
  chunkX :: int
  chunkZ :: int
  blocks :: "(coord \<times> Block) list"
  waterBlocks :: "(coord \<times> WaterBlock) list"
  generated :: bool

type_synonym chunks = "((int \<times> int) \<times> Chunk) list"

section \<open>ChunkManager (game/ChunkManager.ts)\<close>

abbreviation CHUNK_SIZE :: int where "CHUNK_SIZE \<equiv> 8"
abbreviation RENDER_DISTANCE :: int where "RENDER_DISTANCE \<equiv> 3"
abbreviation SEA_LEVEL :: int where "SEA_LEVEL \<equiv> 20"
abbreviation MAX_HEIGHT :: int where "MAX_HEIGHT \<equiv> 400"

definition getChunkCoord :: "real \<Rightarrow> real \<Rightarrow> int \<times> int" where
  "getChunkCoord worldX worldZ =
     (\<lfloor>worldX / real_of_int CHUNK_SIZE\<rfloor>, \<lfloor>worldZ / real_of_int CHUNK_SIZE\<rfloor>)"

text \<open>
  The source's \<^verbatim>\<open>noise\<close> is a sum of three products of \<^verbatim>\<open>Math.sin\<close> and \<^verbatim>\<open>Math.cos\<close>
  in double precision. The generation pass is modelled over an arbitrary height noise
  \<open>nz\<close>, so that what is proved of it holds for the rounded function the program
  computes; \<open>noise\<close> below is the same formula over the reals.
\<close>

type_synonym noise_fn = "int \<Rightarrow> int \<Rightarrow> real"

definition noise :: noise_fn where
  "noise x z =
     (let n1 = sin (real_of_int x * (1 / 100)) * cos (real_of_int z * (1 / 100)) * 100;
          n2 = sin (real_of_int x * (5 / 100)) * cos (real_of_int z * (5 / 100)) * 30;
          n3 = sin (real_of_int x * (1 / 10)) * cos (real_of_int z * (1 / 10)) * 10
      in n1 + n2 + n3)"

definition clampedHeight :: "noise_fn \<Rightarrow> int \<Rightarrow> int \<Rightarrow> int" where
  "clampedHeight nz worldX worldZ =
     (let height = \<lfloor>real_of_int SEA_LEVEL + nz worldX worldZ\<rfloor>
      in max 0 (min MAX_HEIGHT height))"

definition terrainType :: "int \<Rightarrow> int \<Rightarrow> BlockType" where
  "terrainType y h =
     (if y = h then
        (if h > SEA_LEVEL + 160 then Snow
         else if h > SEA_LEVEL + 60 then Stone
         else if h \<le> SEA_LEVEL then Sand
         else Grass)
      else if y \<ge> h - 4 \<and> h > SEA_LEVEL then
        (if h \<le> SEA_LEVEL + 1 then Sand else Dirt)
      else Stone)"

definition setBlockInChunk :: "Chunk \<Rightarrow> int \<Rightarrow> int \<Rightarrow> int \<Rightarrow> BlockType \<Rightarrow> Chunk" where
  "setBlockInChunk chunk worldX worldY worldZ t =
     chunk\<lparr>blocks := AList.update (worldX, worldY, worldZ)
                       \<lparr>position = (worldX, worldY, worldZ), btype = t\<rparr> (blocks chunk)\<rparr>"

definition setWaterBlockInChunk :: "Chunk \<Rightarrow> int \<Rightarrow> int \<Rightarrow> int \<Rightarrow> real \<Rightarrow> Chunk" where
  "setWaterBlockInChunk chunk worldX worldY worldZ lvl =
     chunk\<lparr>waterBlocks := AList.update (worldX, worldY, worldZ)
                            \<lparr>wposition = (worldX, worldY, worldZ), level = lvl\<rparr>
                            (waterBlocks chunk)\<rparr>"

text \<open>
  \<^verbatim>\<open>Math.random\<close> is an uncontrolled source: the model reads the draws from a stream
  \<open>rand\<close> and threads the index of the next draw. \<open>random_source\<close> is the contract of
  \<^verbatim>\<open>Math.random\<close>, a value in \<open>[0, 1)\<close>.
\<close>

type_synonym rand_fn = "nat \<Rightarrow> real"

definition random_source :: "rand_fn \<Rightarrow> bool" where
  "random_source rand = (\<forall>n. 0 \<le> rand n \<and> rand n < 1)"

text \<open>
  One cell of the canopy. The draw comes first in
  \<^verbatim>\<open>Math.random() < 0.7 && !(leafX === worldX && leafZ === worldZ)\<close>, so it is consumed
  for the trunk's own cell too.
\<close>

definition placeLeaf ::
  "rand_fn \<Rightarrow> int \<Rightarrow> int \<Rightarrow> int \<Rightarrow> int \<Rightarrow> int \<Rightarrow> Chunk \<times> nat \<Rightarrow> Chunk \<times> nat" where
  "placeLeaf rand worldX worldZ crown leafX leafZ s =
     (case s of (chunk, n) \<Rightarrow>
        if rand n < 7 / 10 \<and> \<not> (leafX = worldX \<and> leafZ = worldZ) then
          (let chunk1 = setBlockInChunk chunk leafX (crown + 1) leafZ Grass
           in if rand (n + 1) < 5 / 10
              then (setBlockInChunk chunk1 leafX (crown + 2) leafZ Grass, n + 2)
              else (chunk1, n + 2))
        else (chunk, n + 1))"

definition placeTree ::
  "rand_fn \<Rightarrow> int \<Rightarrow> int \<Rightarrow> int \<Rightarrow> Chunk \<times> nat \<Rightarrow> Chunk \<times> nat" where
  "placeTree rand worldX worldZ h s =
     (case s of (chunk, n) \<Rightarrow>
        let treeHeight = 6 + (\<lfloor>rand n * 4\<rfloor> :: int);
            chunk1 = fold (\<lambda>treeY c. setBlockInChunk c worldX treeY worldZ Wood)
                       [h + 1 .. h + treeHeight] chunk
        in fold (\<lambda>leafX. fold (\<lambda>leafZ. placeLeaf rand worldX worldZ (h + treeHeight) leafX leafZ)
                            [worldZ - 2 .. worldZ + 2])
             [worldX - 2 .. worldX + 2] (chunk1, n + 1))"

text \<open>The body of the two column loops, for the column \<open>(worldX, worldZ)\<close>.\<close>

definition genColumn ::
  "noise_fn \<Rightarrow> rand_fn \<Rightarrow> int \<Rightarrow> int \<Rightarrow> Chunk \<times> nat \<Rightarrow> Chunk \<times> nat" where
  "genColumn nz rand worldX worldZ s =
     (case s of (chunk, n) \<Rightarrow>
        let h = clampedHeight nz worldX worldZ;
            chunk1 = fold (\<lambda>y c. setBlockInChunk c worldX y worldZ (terrainType y h)) [0 .. h] chunk;
            chunk2 = (if h < SEA_LEVEL
                      then fold (\<lambda>y c. setWaterBlockInChunk c worldX y worldZ 1) [h + 1 .. SEA_LEVEL] chunk1
                      else chunk1)
        in if h > SEA_LEVEL + 2 \<and> h < SEA_LEVEL + 40 then
             (if rand n < 3 / 100 then placeTree rand worldX worldZ h (chunk2, n + 1)
              else (chunk2, n + 1))
           else (chunk2, n))"

text \<open>
  \<^verbatim>\<open>generateChunk\<close>. Nothing in the \<^verbatim>\<open>try\<close> block can throw on numbers, so the
  \<^verbatim>\<open>catch\<close> branch (an empty chunk with \<open>generated = false\<close>) is not a branch of the
  model. The result is the chunk and the index of the next draw.
\<close>

definition generateChunk :: "noise_fn \<Rightarrow> rand_fn \<Rightarrow> nat \<Rightarrow> int \<Rightarrow> int \<Rightarrow> Chunk \<times> nat" where
  "generateChunk nz rand n cx cz =
     (let chunk = \<lparr>chunkX = cx, chunkZ = cz, blocks = [], waterBlocks = [], generated = True\<rparr>;
          startX = cx * CHUNK_SIZE;
          startZ = cz * CHUNK_SIZE
      in fold (\<lambda>localX. fold (\<lambda>localZ. genColumn nz rand (startX + localX) (startZ + localZ))
                          [0 .. CHUNK_SIZE - 1])
           [0 .. CHUNK_SIZE - 1] (chunk, n))"

text \<open>
  The state of the store is the chunk cache \<^verbatim>\<open>this.chunks\<close> together with the index of
  the next random draw. \<^verbatim>\<open>getOrGenerateChunk\<close> also starts a timer that sets
  \<open>generated\<close> to true 100 ms later; the flag is already true on the chunk that
  \<open>generateChunk\<close> returns, so the timer changes nothing.
\<close>

type_synonym store = "chunks \<times> nat"

definition getOrGenerateChunk ::
  "noise_fn \<Rightarrow> rand_fn \<Rightarrow> int \<Rightarrow> int \<Rightarrow> store \<Rightarrow> Chunk \<times> store" where
  "getOrGenerateChunk nz rand cx cz s =
     (case s of (cs, n) \<Rightarrow>
        (case map_of cs (cx, cz) of
           Some chunk \<Rightarrow> (chunk, (cs, n))
         | None \<Rightarrow>
             (case generateChunk nz rand n cx cz of
                (chunk, n') \<Rightarrow> (chunk, (AList.update (cx, cz) chunk cs, n')))))"

definition updateLoadedChunks :: "noise_fn \<Rightarrow> rand_fn \<Rightarrow> real \<Rightarrow> real \<Rightarrow> store \<Rightarrow> store" where
  "updateLoadedChunks nz rand playerX playerZ s =
     (case getChunkCoord playerX playerZ of (pcx, pcz) \<Rightarrow>
        (case fold (\<lambda>x. fold (\<lambda>z (loaded, st).
                                (List.insert (x, z) loaded, snd (getOrGenerateChunk nz rand x z st)))
                             [pcz - RENDER_DISTANCE .. pcz + RENDER_DISTANCE])
                [pcx - RENDER_DISTANCE .. pcx + RENDER_DISTANCE] ([], s) of
           (loadedChunks, (cs, n)) \<Rightarrow>
             (let chunksToUnload = map fst (filter (\<lambda>(key, chunk). key \<notin> set loadedChunks) cs)
              in (fold AList.delete chunksToUnload cs, n))))"

definition getAllLoadedBlocks :: "chunks \<Rightarrow> Block list" where
  "getAllLoadedBlocks cs =
     concat (map (\<lambda>(key, chunk). if \<not> generated chunk then [] else map snd (blocks chunk)) cs)"

definition getAllLoadedWaterBlocks :: "chunks \<Rightarrow> WaterBlock list" where
  "getAllLoadedWaterBlocks cs =
     concat (map (\<lambda>(key, chunk). if \<not> generated chunk then [] else map snd (waterBlocks chunk)) cs)"

text \<open>
  \<^verbatim>\<open>placeBlock\<close> and \<^verbatim>\<open>removeBlock\<close> mutate the chunk object that the cache holds under
  the key of the position's chunk coordinate: the model writes the changed chunk back
  under that key, which keeps its place in the cache.
\<close>

definition placeBlock :: "noise_fn \<Rightarrow> rand_fn \<Rightarrow> coord \<Rightarrow> BlockType \<Rightarrow> store \<Rightarrow> store" where
  "placeBlock nz rand pos t s =
     (case pos of (px, py, pz) \<Rightarrow>
        if py < 0 \<or> py > MAX_HEIGHT + 20 then s
        else if t = Water then s
        else
          (case getChunkCoord (real_of_int px) (real_of_int pz) of (cx, cz) \<Rightarrow>
             (case getOrGenerateChunk nz rand cx cz s of (chunk, (cs, n)) \<Rightarrow>
                (let chunk1 = chunk\<lparr>waterBlocks := AList.delete (px, py, pz) (waterBlocks chunk)\<rparr>;
                     chunk2 = chunk1\<lparr>blocks := AList.update (px, py, pz)
                                                  \<lparr>position = (px, py, pz), btype = t\<rparr> (blocks chunk1)\<rparr>
                 in (AList.update (cx, cz) chunk2 cs, n)))))"

definition removeBlock :: "coord \<Rightarrow> store \<Rightarrow> store" where
  "removeBlock pos s =
     (case pos of (px, py, pz) \<Rightarrow>
        (case s of (cs, n) \<Rightarrow>
           (case getChunkCoord (real_of_int px) (real_of_int pz) of (cx, cz) \<Rightarrow>
              (case map_of cs (cx, cz) of
                 None \<Rightarrow> s
               | Some chunk \<Rightarrow>
                   (let chunk1 = chunk\<lparr>blocks := AList.delete (px, py, pz) (blocks chunk)\<rparr>;
                        chunk2 = (if py \<le> SEA_LEVEL
                                  then chunk1\<lparr>waterBlocks := AList.update (px, py, pz)
                                          \<lparr>wposition = (px, py, pz), level = 1\<rparr> (waterBlocks chunk1)\<rparr>
                                  else chunk1)
                    in (AList.update (cx, cz) chunk2 cs, n))))))"


subsection \<open>Snapshot and restore\<close>

text \<open>
  \<^verbatim>\<open>loadWorldData\<close> takes \<^verbatim>\<open>data: any\<close>. The payload type carries the shapes the
  restore path distinguishes, each with the values of JavaScript it stands for.

  An element of a \<^verbatim>\<open>blocks\<close> or \<^verbatim>\<open>waterBlocks\<close> array, which the callback destructures
  as \<^verbatim>\<open>[key, value]\<close>: \<open>KeyValue\<close> is a two-element array of a key string and a block;
  \<open>NotIterable\<close> is a value that cannot be destructured (a number, \<^verbatim>\<open>null\<close>, a plain
  object), on which the callback throws.

  A field \<^verbatim>\<open>blocks\<close> or \<^verbatim>\<open>waterBlocks\<close> of a chunk record: \<open>Absent\<close> is a missing or falsy
  value (skipped by \<^verbatim>\<open>if (chunkData.blocks)\<close>); \<open>NonList\<close> is a truthy value that is no
  array (a number, \<^verbatim>\<open>true\<close>, a plain object), on which \<^verbatim>\<open>.forEach\<close> is not a function;
  \<open>Listed\<close> is an array.

  A value of the \<^verbatim>\<open>chunks\<close> object: \<open>NoRecord\<close> is \<^verbatim>\<open>null\<close> (\<^verbatim>\<open>undefined\<close> does not
  survive JSON), on which reading \<^verbatim>\<open>chunkData.x\<close> throws; \<open>ChunkRecord\<close> is an object with
  numbers \<^verbatim>\<open>x\<close> and \<^verbatim>\<open>z\<close>.

  The payload: \<open>NullData\<close> is \<^verbatim>\<open>null\<close> or \<^verbatim>\<open>undefined\<close>, \<open>NoChunks\<close> an object with no
  (truthy) \<^verbatim>\<open>chunks\<close> field, and \<open>WorldData\<close> the entries of the \<^verbatim>\<open>chunks\<close> object in
  the order of \<^verbatim>\<open>Object.entries\<close> (none for a truthy \<^verbatim>\<open>chunks\<close> that is a number or
  \<^verbatim>\<open>true\<close>).

  Values of yet other shapes (an array element with fewer than two members, a key that is
  no string, a record that is a number) store \<^verbatim>\<open>undefined\<close> in the cache without
  throwing; the typed cache has no place for them and the payload type leaves them out.
\<close>

datatype ('k, 'v) element = KeyValue 'k 'v | NotIterable

datatype 'a field = Absent | NonList | Listed 'a

record ChunkData =
  dataX :: int
  dataZ :: int
  dataBlocks :: "(coord, Block) element list field"
  dataWaterBlocks :: "(coord, WaterBlock) element list field"
  dataGenerated :: bool

datatype chunk_record = NoRecord | ChunkRecord ChunkData

datatype WorldData = NullData | NoChunks | WorldData "((int \<times> int) \<times> chunk_record) list"

datatype error = TypeError

text \<open>
  \<^verbatim>\<open>Array.from(map.entries())\<close> lists the entries of a \<^verbatim>\<open>Map\<close> as two-element arrays.
\<close>

definition entriesArray :: "('k \<times> 'v) list \<Rightarrow> ('k, 'v) element list" where
  "entriesArray m = map (\<lambda>(k, v). KeyValue k v) m"

definition getWorldData :: "chunks \<Rightarrow> WorldData" where
  "getWorldData cs =
     WorldData (fold (\<lambda>(key, chunk) chunksData.
                        AList.update key
                          (ChunkRecord
                             \<lparr>dataX = chunkX chunk, dataZ = chunkZ chunk,
                              dataBlocks = Listed (entriesArray (blocks chunk)),
                              dataWaterBlocks = Listed (entriesArray (waterBlocks chunk)),
                              dataGenerated = generated chunk\<rparr>) chunksData) cs [])"

text \<open>
  \<^verbatim>\<open>array.forEach(([key, value]) => map.set(key, value))\<close>: the entries are set in order,
  and the first element that cannot be destructured throws (\<open>Inl\<close>).
\<close>

fun setEntries :: "('k, 'v) element list \<Rightarrow> ('k \<times> 'v) list \<Rightarrow> error + ('k \<times> 'v) list" where
  "setEntries [] m = Inr m"
| "setEntries (KeyValue k v # elements) m = setEntries elements (AList.update k v m)"
| "setEntries (NotIterable # elements) m = Inl TypeError"

text \<open>
  The two guarded loops \<^verbatim>\<open>if (chunkData.blocks) { chunkData.blocks.forEach(...) }\<close> and
  its twin for water have one shape: \<open>loadEntries\<close>.
\<close>

definition loadEntries :: "('k, 'v) element list field \<Rightarrow> ('k \<times> 'v) list \<Rightarrow> error + ('k \<times> 'v) list" where
  "loadEntries f m =
     (case f of
        Absent \<Rightarrow> Inr m
      | NonList \<Rightarrow> Inl TypeError
      | Listed elements \<Rightarrow> setEntries elements m)"

text \<open>
  The callback of \<^verbatim>\<open>Object.entries(data.chunks).forEach\<close>. It reads \<^verbatim>\<open>chunkData.x\<close>
  first, which throws on \<^verbatim>\<open>null\<close>; a throw in either loop leaves the chunk unstored.
\<close>

definition loadChunk :: "(int \<times> int) \<times> chunk_record \<Rightarrow> chunks \<Rightarrow> error + chunks" where
  "loadChunk entry cs =
     (case entry of (key, record) \<Rightarrow>
        (case record of
           NoRecord \<Rightarrow> Inl TypeError
         | ChunkRecord chunkData \<Rightarrow>
             (let chunk = \<lparr>chunkX = dataX chunkData, chunkZ = dataZ chunkData, blocks = [],
                           waterBlocks = [], generated = (dataGenerated chunkData \<or> True)\<rparr>
              in (case loadEntries (dataBlocks chunkData) (blocks chunk) of
                    Inl e \<Rightarrow> Inl e
                  | Inr bs \<Rightarrow>
                      (case loadEntries (dataWaterBlocks chunkData) (waterBlocks chunk) of
                         Inl e \<Rightarrow> Inl e
                       | Inr ws \<Rightarrow>
                           Inr (AList.update key (chunk\<lparr>blocks := bs, waterBlocks := ws\<rparr>) cs))))))"

text \<open>
  The \<^verbatim>\<open>forEach\<close> over the chunk records: a throw leaves the cache as the records before
  it built it. The result pairs the cache with how the call ended.
\<close>

fun loadChunks :: "((int \<times> int) \<times> chunk_record) list \<Rightarrow> chunks \<Rightarrow> chunks \<times> (error + unit)" where
  "loadChunks [] cs = (cs, Inr ())"
| "loadChunks (entry # entries) cs =
     (case loadChunk entry cs of
        Inl e \<Rightarrow> (cs, Inl e)
      | Inr cs' \<Rightarrow> loadChunks entries cs')"

definition loadWorldData :: "WorldData \<Rightarrow> chunks \<Rightarrow> chunks \<times> (error + unit)" where
  "loadWorldData data cs =
     (case data of
        NullData \<Rightarrow> (cs, Inr ())
      | NoChunks \<Rightarrow> (cs, Inr ())
      | WorldData entries \<Rightarrow> loadChunks entries [])"

subsection \<open>WorldManager (game/WorldManager.ts)\<close>

definition generateTerrain :: "noise_fn \<Rightarrow> rand_fn \<Rightarrow> store \<Rightarrow> store" where
  "generateTerrain nz rand s = updateLoadedChunks nz rand 0 0 s"

definition WorldManager_loadWorldData ::
  "noise_fn \<Rightarrow> rand_fn \<Rightarrow> WorldData \<Rightarrow> store \<Rightarrow> store \<times> (error + unit)" where
  "WorldManager_loadWorldData nz rand data s =
     (if data \<noteq> NullData
      then (case s of (cs, n) \<Rightarrow> (case loadWorldData data cs of (cs', r) \<Rightarrow> ((cs', n), r)))
      else (generateTerrain nz rand s, Inr ()))"

subsection \<open>Sequences of operations\<close>

datatype op =
    PlaceBlock coord BlockType
  | RemoveBlock coord
  | UpdateLoadedChunks real real
  | GetOrGenerateChunk int int

fun apply_op :: "noise_fn \<Rightarrow> rand_fn \<Rightarrow> op \<Rightarrow> store \<Rightarrow> store" where
  "apply_op nz rand (PlaceBlock pos t) s = placeBlock nz rand pos t s"
| "apply_op nz rand (RemoveBlock pos) s = removeBlock pos s"
| "apply_op nz rand (UpdateLoadedChunks playerX playerZ) s = updateLoadedChunks nz rand playerX playerZ s"
| "apply_op nz rand (GetOrGenerateChunk cx cz) s = snd (getOrGenerateChunk nz rand cx cz s)"

definition run_ops :: "noise_fn \<Rightarrow> rand_fn \<Rightarrow> op list \<Rightarrow> store \<Rightarrow> store" where
  "run_ops nz rand ops s = fold (apply_op nz rand) ops s"

text \<open>
  The states of the store: a new \<^verbatim>\<open>ChunkManager\<close> has an empty cache; every public
  mutator, \<^verbatim>\<open>clear\<close> and \<^verbatim>\<open>loadWorldData\<close> on any payload (also one that throws) lead
  from a state to a state.
\<close>

inductive reachable :: "noise_fn \<Rightarrow> rand_fn \<Rightarrow> store \<Rightarrow> bool" for nz rand where
  reach_new: "reachable nz rand ([], n)"
| reach_op: "reachable nz rand s \<Longrightarrow> reachable nz rand (apply_op nz rand a s)"
| reach_clear: "reachable nz rand (cs, n) \<Longrightarrow> reachable nz rand ([], n)"
| reach_load: "reachable nz rand (cs, n) \<Longrightarrow> reachable nz rand (fst (loadWorldData data cs), n)"

section \<open>CollisionManager (game/CollisionManager.ts)\<close>

text \<open>
  Positions of the observer are \<^verbatim>\<open>THREE.Vector3\<close> values of doubles; the model computes
  with reals. \<^verbatim>\<open>Box3.intersectsBox\<close> is the library's closed-interval test.
\<close>

record Vector3 =
  vx :: real
  vy :: real
  vz :: real

record Box3 =
  bmin :: Vector3
  bmax :: Vector3

definition intersectsBox :: "Box3 \<Rightarrow> Box3 \<Rightarrow> bool" where
  "intersectsBox this box =
     (\<not> (vx (bmax box) < vx (bmin this) \<or> vx (bmin box) > vx (bmax this) \<or>
         vy (bmax box) < vy (bmin this) \<or> vy (bmin box) > vy (bmax this) \<or>
         vz (bmax box) < vz (bmin this) \<or> vz (bmin box) > vz (bmax this)))"

definition BLOCK_SIZE :: real where "BLOCK_SIZE = 1 / 2"
definition PLAYER_HEIGHT :: real where "PLAYER_HEIGHT = 1"
definition PLAYER_WIDTH :: real where "PLAYER_WIDTH = 6 / 10"

type_synonym collision_index = "(coord \<times> Block) list"

definition updateBlocks :: "Block list \<Rightarrow> collision_index" where
  "updateBlocks bs = fold (\<lambda>block. AList.update (position block) block) bs []"

definition getPlayerBoundingBox :: "Vector3 \<Rightarrow> Box3" where
  "getPlayerBoundingBox p =
     (let halfWidth = PLAYER_WIDTH / 2
      in \<lparr>bmin = \<lparr>vx = vx p - halfWidth, vy = vy p - PLAYER_HEIGHT, vz = vz p - halfWidth\<rparr>,
          bmax = \<lparr>vx = vx p + halfWidth, vy = vy p, vz = vz p + halfWidth\<rparr>\<rparr>)"

definition getBlockBoundingBox :: "int \<Rightarrow> int \<Rightarrow> int \<Rightarrow> Box3" where
  "getBlockBoundingBox x y z =
     (let halfSize = BLOCK_SIZE / 2;
          worldX = real_of_int x * BLOCK_SIZE;
          worldY = real_of_int y * BLOCK_SIZE;
          worldZ = real_of_int z * BLOCK_SIZE
      in \<lparr>bmin = \<lparr>vx = worldX - halfSize, vy = worldY - halfSize, vz = worldZ - halfSize\<rparr>,
          bmax = \<lparr>vx = worldX + halfSize, vy = worldY + halfSize, vz = worldZ + halfSize\<rparr>\<rparr>)"

definition hasCollisionAtPosition :: "collision_index \<Rightarrow> Vector3 \<Rightarrow> bool" where
  "hasCollisionAtPosition idx p =
     (let playerBox = getPlayerBoundingBox p;
          minBlockX = \<lfloor>vx (bmin playerBox) / BLOCK_SIZE\<rfloor>;
          maxBlockX = \<lfloor>vx (bmax playerBox) / BLOCK_SIZE\<rfloor>;
          minBlockY = \<lfloor>vy (bmin playerBox) / BLOCK_SIZE\<rfloor>;
          maxBlockY = \<lfloor>vy (bmax playerBox) / BLOCK_SIZE\<rfloor>;
          minBlockZ = \<lfloor>vz (bmin playerBox) / BLOCK_SIZE\<rfloor>;
          maxBlockZ = \<lfloor>vz (bmax playerBox) / BLOCK_SIZE\<rfloor>
      in list_ex (\<lambda>x. list_ex (\<lambda>y. list_ex (\<lambda>z.
             map_of idx (x, y, z) \<noteq> None \<and> intersectsBox playerBox (getBlockBoundingBox x y z))
           [minBlockZ .. maxBlockZ]) [minBlockY .. maxBlockY]) [minBlockX .. maxBlockX])"

definition checkCollision :: "collision_index \<Rightarrow> Vector3 \<Rightarrow> Vector3 \<Rightarrow> Vector3" where
  "checkCollision idx pos velocity =
     (let newPosition = \<lparr>vx = vx pos + vx velocity, vy = vy pos + vy velocity,
                          vz = vz pos + vz velocity\<rparr>;
          correctedPosition = newPosition;
          originalPos = pos;
          testPosX = \<lparr>vx = vx newPosition, vy = vy originalPos, vz = vz originalPos\<rparr>;
          correctedPosition = (if hasCollisionAtPosition idx testPosX
                               then correctedPosition\<lparr>vx := vx originalPos\<rparr>
                               else correctedPosition);
          testPosY = \<lparr>vx = vx correctedPosition, vy = vy newPosition, vz = vz originalPos\<rparr>;
          correctedPosition = (if hasCollisionAtPosition idx testPosY
                               then correctedPosition\<lparr>vy := vy originalPos\<rparr>
                               else correctedPosition);
          testPosZ = \<lparr>vx = vx correctedPosition, vy = vy correctedPosition, vz = vz newPosition\<rparr>;
          correctedPosition = (if hasCollisionAtPosition idx testPosZ
                               then correctedPosition\<lparr>vz := vz originalPos\<rparr>
                               else correctedPosition)
      in correctedPosition)"

text \<open>The downward scan of \<^verbatim>\<open>getGroundHeight\<close>, from \<open>y\<close> to \<open>-10\<close>.\<close>

function scanGround :: "collision_index \<Rightarrow> real \<Rightarrow> real \<Rightarrow> int \<Rightarrow> real" where
  "scanGround idx x z y =
     (if y \<ge> -10 then
        (if map_of idx (\<lfloor>x / BLOCK_SIZE\<rfloor>, y, \<lfloor>z / BLOCK_SIZE\<rfloor>) \<noteq> None
         then (real_of_int y + 1) * BLOCK_SIZE + PLAYER_HEIGHT
         else scanGround idx x z (y - 1))
      else PLAYER_HEIGHT)"
  by pat_completeness auto
termination
  by (relation "measure (\<lambda>(idx, x, z, y). nat (y + 11))") auto

definition getGroundHeight :: "collision_index \<Rightarrow> real \<Rightarrow> real \<Rightarrow> real" where
  "getGroundHeight idx x z = scanGround idx x z 200"


section \<open>Invariants of the store\<close>

text \<open>The columns of chunk \<open>(cx, cz)\<close>: the world coordinates its two loops visit.\<close>

definition in_chunk :: "int \<Rightarrow> int \<Rightarrow> int \<Rightarrow> int \<Rightarrow> bool" where
  "in_chunk cx cz x z = (cx * 8 \<le> x \<and> x < cx * 8 + 8 \<and> cz * 8 \<le> z \<and> z < cz * 8 + 8)"

text \<open>
  What every chunk of the cache satisfies: its two \<^verbatim>\<open>Map\<close>s have no repeated key and its
  flag is set.
\<close>

definition chunk_ok :: "Chunk \<Rightarrow> bool" where
  "chunk_ok c = (distinct (map fst (blocks c)) \<and> distinct (map fst (waterBlocks c)) \<and> generated c)"

definition cache_ok :: "chunks \<Rightarrow> bool" where
  "cache_ok cs = (distinct (map fst cs) \<and> (\<forall>k c. map_of cs k = Some c \<longrightarrow> chunk_ok c))"

text \<open>The record that \<open>getWorldData\<close> writes for one chunk.\<close>

definition encodeChunk :: "Chunk \<Rightarrow> chunk_record" where
  "encodeChunk chunk =
     ChunkRecord
       \<lparr>dataX = chunkX chunk, dataZ = chunkZ chunk,
        dataBlocks = Listed (entriesArray (blocks chunk)),
        dataWaterBlocks = Listed (entriesArray (waterBlocks chunk)),
        dataGenerated = generated chunk\<rparr>"

text \<open>
  A field the restore path reads without throwing: missing, or an array of key-value
  pairs. \<open>listedEntries\<close> are its pairs, and \<open>restoredChunk\<close> is what the restore path builds
  from a record with two such fields: a missing field gives the empty map.
\<close>

definition pairs_or_missing :: "('k, 'v) element list field \<Rightarrow> bool" where
  "pairs_or_missing f =
     (case f of
        Absent \<Rightarrow> True
      | NonList \<Rightarrow> False
      | Listed elements \<Rightarrow> list_all (\<lambda>e. e \<noteq> NotIterable) elements)"

fun elementPairs :: "('k, 'v) element list \<Rightarrow> ('k \<times> 'v) list" where
  "elementPairs [] = []"
| "elementPairs (KeyValue k v # elements) = (k, v) # elementPairs elements"
| "elementPairs (NotIterable # elements) = elementPairs elements"

definition listedEntries :: "('k, 'v) element list field \<Rightarrow> ('k \<times> 'v) list" where
  "listedEntries f = (case f of Listed elements \<Rightarrow> elementPairs elements | _ \<Rightarrow> [])"

definition restoredChunk :: "ChunkData \<Rightarrow> Chunk" where
  "restoredChunk chunkData =
     \<lparr>chunkX = dataX chunkData, chunkZ = dataZ chunkData,
      blocks = fold (\<lambda>(k, v). AList.update k v) (listedEntries (dataBlocks chunkData)) [],
      waterBlocks = fold (\<lambda>(k, v). AList.update k v) (listedEntries (dataWaterBlocks chunkData)) [],
      generated = True\<rparr>"

text \<open>
  What the generation pass maintains on the chunk it fills, for draws in \<open>[0, 1)\<close>: a solid
  entry sits at its key, in a column of the chunk at or below the surface or else above
  \<open>y = 22\<close> (trunks and leaves); a water entry is a full block at its key, in a column of
  the chunk, above the surface and at most at sea level.
\<close>

definition gen_inv :: "noise_fn \<Rightarrow> int \<Rightarrow> int \<Rightarrow> Chunk \<Rightarrow> bool" where
  "gen_inv nz cx cz c =
     ((\<forall>x y z b. map_of (blocks c) (x, y, z) = Some b \<longrightarrow>
          position b = (x, y, z)
          \<and> ((in_chunk cx cz x z \<and> 0 \<le> y \<and> y \<le> clampedHeight nz x z) \<or> 22 < y))
      \<and> (\<forall>x y z w. map_of (waterBlocks c) (x, y, z) = Some w \<longrightarrow>
          w = \<lparr>wposition = (x, y, z), level = 1\<rparr>
          \<and> in_chunk cx cz x z \<and> clampedHeight nz x z < y \<and> y \<le> 20))"

text \<open>
  What every cached chunk satisfies under \<open>placeBlock\<close> and \<open>removeBlock\<close>: solid entries
  of other chunks' columns lie above sea level, water entries lie in the chunk's own columns
  at or below sea level, and no key has both.
\<close>

definition chunk_excl :: "int \<times> int \<Rightarrow> Chunk \<Rightarrow> bool" where
  "chunk_excl key c =
     ((\<forall>x y z b. map_of (blocks c) (x, y, z) = Some b \<longrightarrow>
          position b = (x, y, z) \<and> (getChunkCoord (real_of_int x) (real_of_int z) = key \<or> 20 < y))
      \<and> (\<forall>x y z w. map_of (waterBlocks c) (x, y, z) = Some w \<longrightarrow>
          wposition w = (x, y, z) \<and> getChunkCoord (real_of_int x) (real_of_int z) = key \<and> y \<le> 20)
      \<and> (\<forall>k. map_of (blocks c) k \<noteq> None \<longrightarrow> map_of (waterBlocks c) k = None))"

definition store_excl :: "chunks \<Rightarrow> bool" where
  "store_excl cs = (\<forall>key c. map_of cs key = Some c \<longrightarrow> chunk_excl key c)"

section \<open>Association lists as \<^verbatim>\<open>Map\<close>s\<close>

lemma update_absent: "map_of al k = None \<Longrightarrow> AList.update k v al = al @ [(k, v)]"
  by (induction al) (auto split: if_splits)

lemma update_append_last:
  "map_of al k = None \<Longrightarrow> AList.update k w (al @ [(k, v)]) = al @ [(k, w)]"
  by (induction al) (auto split: if_splits)

lemma getChunkCoord_of_int:
  "getChunkCoord (real_of_int x) (real_of_int z) = (x div 8, z div 8)"
proof -
  have "\<lfloor>real_of_int x / real_of_int 8\<rfloor> = x div 8" "\<lfloor>real_of_int z / real_of_int 8\<rfloor> = z div 8"
    by (rule floor_divide_of_int_eq)+
  then show ?thesis by (simp add: getChunkCoord_def)
qed

section \<open>Mutation: \<^verbatim>\<open>placeBlock\<close> and \<^verbatim>\<open>removeBlock\<close>\<close>

text \<open>
  C8. For a position \<open>(px, py, pz)\<close> with \<open>0 \<le> py \<le> 420\<close>, whose chunk coordinate is
  \<open>(cx, cz)\<close>, and a material other than water:

  on a store that caches no chunk for \<open>(cx, cz)\<close>, \<open>placeBlock\<close> first generates that chunk
  and caches it (\<open>getOrGenerateChunk\<close> appends it to the cache and consumes the draws of
  the generation), then records the block in it: the cache afterwards is the old one
  followed by the generated chunk with the water at the position deleted and the block
  set, and the store has changed;

  on a store that caches a chunk for \<open>(cx, cz)\<close>, nothing is generated and that chunk is
  replaced, in its place, by itself with the water at the position deleted and the block
  set; the store has changed unless the chunk already held this very block at the position
  and no water there;

  whatever the store cached, afterwards the chunk cached for \<open>(cx, cz)\<close> holds the block at
  the position and no water there.
\<close>

theorem placeBlock_generates_then_records:
  assumes "0 \<le> py" and "py \<le> 420" and "t \<noteq> Water"
    and "getChunkCoord (real_of_int px) (real_of_int pz) = (cx, cz)"
  shows "(map_of cs (cx, cz) = None \<longrightarrow>
            (\<exists>chunk n'. generateChunk nz rand n cx cz = (chunk, n')
               \<and> getOrGenerateChunk nz rand cx cz (cs, n) = (chunk, (cs @ [((cx, cz), chunk)], n'))
               \<and> placeBlock nz rand (px, py, pz) t (cs, n) =
                   (cs @ [((cx, cz),
                           chunk\<lparr>waterBlocks := AList.delete (px, py, pz) (waterBlocks chunk),
                                 blocks := AList.update (px, py, pz)
                                             \<lparr>position = (px, py, pz), btype = t\<rparr> (blocks chunk)\<rparr>)], n')
               \<and> placeBlock nz rand (px, py, pz) t (cs, n) \<noteq> (cs, n)))
         \<and> (\<forall>chunk. map_of cs (cx, cz) = Some chunk \<longrightarrow>
               getOrGenerateChunk nz rand cx cz (cs, n) = (chunk, (cs, n))
               \<and> placeBlock nz rand (px, py, pz) t (cs, n) =
                   (AList.update (cx, cz)
                      (chunk\<lparr>waterBlocks := AList.delete (px, py, pz) (waterBlocks chunk),
                             blocks := AList.update (px, py, pz)
                                         \<lparr>position = (px, py, pz), btype = t\<rparr> (blocks chunk)\<rparr>) cs, n)
               \<and> (map_of (blocks chunk) (px, py, pz) \<noteq> Some \<lparr>position = (px, py, pz), btype = t\<rparr>
                    \<or> map_of (waterBlocks chunk) (px, py, pz) \<noteq> None
                  \<longrightarrow> placeBlock nz rand (px, py, pz) t (cs, n) \<noteq> (cs, n)))
         \<and> (\<exists>chunk'. map_of (fst (placeBlock nz rand (px, py, pz) t (cs, n))) (cx, cz) = Some chunk'
               \<and> map_of (blocks chunk') (px, py, pz) = Some \<lparr>position = (px, py, pz), btype = t\<rparr>
               \<and> map_of (waterBlocks chunk') (px, py, pz) = None)"
proof -
  let ?p = "(px, py, pz)"
  let ?b = "\<lparr>position = ?p, btype = t\<rparr>"
  let ?set = "\<lambda>chunk. chunk\<lparr>waterBlocks := AList.delete ?p (waterBlocks chunk),
                              blocks := AList.update ?p ?b (blocks chunk)\<rparr>"
  have rec: "map_of (blocks (?set chunk)) ?p = Some ?b \<and> map_of (waterBlocks (?set chunk)) ?p = None"
    for chunk
    by (simp add: update_conv' delete_conv')
  have unloaded: "\<exists>chunk n'. generateChunk nz rand n cx cz = (chunk, n')
               \<and> getOrGenerateChunk nz rand cx cz (cs, n) = (chunk, (cs @ [((cx, cz), chunk)], n'))
               \<and> placeBlock nz rand ?p t (cs, n) = (cs @ [((cx, cz), ?set chunk)], n')
               \<and> placeBlock nz rand ?p t (cs, n) \<noteq> (cs, n)"
    if none: "map_of cs (cx, cz) = None"
  proof -
    obtain chunk n' where g: "generateChunk nz rand n cx cz = (chunk, n')"
      by (cases "generateChunk nz rand n cx cz")
    have gg: "getOrGenerateChunk nz rand cx cz (cs, n) = (chunk, (cs @ [((cx, cz), chunk)], n'))"
      using none g by (simp add: getOrGenerateChunk_def update_absent)
    have "placeBlock nz rand ?p t (cs, n) = (cs @ [((cx, cz), ?set chunk)], n')"
      using assms none by (simp add: placeBlock_def gg update_append_last)
    with g gg show ?thesis by simp
  qed
  have cached: "getOrGenerateChunk nz rand cx cz (cs, n) = (chunk, (cs, n))
               \<and> placeBlock nz rand ?p t (cs, n) = (AList.update (cx, cz) (?set chunk) cs, n)"
    if some: "map_of cs (cx, cz) = Some chunk" for chunk
  proof -
    have gg: "getOrGenerateChunk nz rand cx cz (cs, n) = (chunk, (cs, n))"
      using some by (simp add: getOrGenerateChunk_def)
    have "placeBlock nz rand ?p t (cs, n) = (AList.update (cx, cz) (?set chunk) cs, n)"
      using assms by (simp add: placeBlock_def gg)
    with gg show ?thesis by simp
  qed
  have after: "\<exists>chunk'. map_of (fst (placeBlock nz rand ?p t (cs, n))) (cx, cz) = Some chunk'
               \<and> map_of (blocks chunk') ?p = Some ?b \<and> map_of (waterBlocks chunk') ?p = None"
  proof (cases "map_of cs (cx, cz)")
    case None
    from unloaded[OF None] obtain chunk n' where
      "placeBlock nz rand ?p t (cs, n) = (cs @ [((cx, cz), ?set chunk)], n')" by blast
    then have "map_of (fst (placeBlock nz rand ?p t (cs, n))) (cx, cz) = Some (?set chunk)"
      using None by (simp add: map_add_Some_iff)
    with rec[of chunk] show ?thesis by blast
  next
    case (Some chunk)
    have "map_of (fst (placeBlock nz rand ?p t (cs, n))) (cx, cz) = Some (?set chunk)"
      using cached[OF Some] by (simp add: update_conv')
    with rec[of chunk] show ?thesis by blast
  qed
  have changed: "placeBlock nz rand ?p t (cs, n) \<noteq> (cs, n)"
    if some: "map_of cs (cx, cz) = Some chunk"
      and d: "map_of (blocks chunk) ?p \<noteq> Some ?b \<or> map_of (waterBlocks chunk) ?p \<noteq> None" for chunk
  proof
    assume eq: "placeBlock nz rand ?p t (cs, n) = (cs, n)"
    from after obtain chunk' where
      c: "map_of (fst (placeBlock nz rand ?p t (cs, n))) (cx, cz) = Some chunk'"
      and r: "map_of (blocks chunk') ?p = Some ?b" "map_of (waterBlocks chunk') ?p = None"
      by blast
    from c eq some have "chunk' = chunk" by simp
    with r d show False by simp
  qed
  show ?thesis
    using unloaded cached changed after by blast
qed

theorem placeBlock_generates_then_records_witness:
  "(0::int) \<le> 25 \<and> (25::int) \<le> 420 \<and> Stone \<noteq> Water
   \<and> getChunkCoord (real_of_int 3) (real_of_int 3) = (0, 0)
   \<and> map_of ([] :: chunks) (0, 0) = None
   \<and> (\<exists>chunk n'. generateChunk (\<lambda>x z. 0) (\<lambda>i. 0) 0 0 0 = (chunk, n')
         \<and> getOrGenerateChunk (\<lambda>x z. 0) (\<lambda>i. 0) 0 0 ([], 0) = (chunk, ([((0, 0), chunk)], n'))
         \<and> placeBlock (\<lambda>x z. 0) (\<lambda>i. 0) (3, 25, 3) Stone ([], 0) =
             ([((0, 0),
                chunk\<lparr>waterBlocks := AList.delete (3, 25, 3) (waterBlocks chunk),
                      blocks := AList.update (3, 25, 3)
                                  \<lparr>position = (3, 25, 3), btype = Stone\<rparr> (blocks chunk)\<rparr>)], n')
         \<and> placeBlock (\<lambda>x z. 0) (\<lambda>i. 0) (3, 25, 3) Stone ([], 0) \<noteq> ([], 0))
   \<and> (\<exists>chunk'. map_of (fst (placeBlock (\<lambda>x z. 0) (\<lambda>i. 0) (3, 25, 3) Stone ([], 0))) (0, 0) = Some chunk'
         \<and> map_of (blocks chunk') (3, 25, 3) = Some \<lparr>position = (3, 25, 3), btype = Stone\<rparr>
         \<and> map_of (waterBlocks chunk') (3, 25, 3) = None)
   \<and> map_of [((0, 0), \<lparr>chunkX = 0, chunkZ = 0, blocks = [],
                        waterBlocks = [((3, 25, 3), \<lparr>wposition = (3, 25, 3), level = 1\<rparr>)],
                        generated = True\<rparr>)] (0, 0)
       = Some \<lparr>chunkX = 0, chunkZ = 0, blocks = [],
               waterBlocks = [((3, 25, 3), \<lparr>wposition = (3, 25, 3), level = 1\<rparr>)],
               generated = True\<rparr>
   \<and> map_of (waterBlocks \<lparr>chunkX = 0, chunkZ = 0, blocks = [],
               waterBlocks = [((3, 25, 3), \<lparr>wposition = (3, 25, 3), level = 1\<rparr>)],
               generated = True\<rparr>) (3, 25, 3) \<noteq> None
   \<and> placeBlock (\<lambda>x z. 0) (\<lambda>i. 0) (3, 25, 3) Stone
        ([((0, 0), \<lparr>chunkX = 0, chunkZ = 0, blocks = [],
                    waterBlocks = [((3, 25, 3), \<lparr>wposition = (3, 25, 3), level = 1\<rparr>)],
                    generated = True\<rparr>)], 7)
       = ([((0, 0), \<lparr>chunkX = 0, chunkZ = 0,
                     blocks = [((3, 25, 3), \<lparr>position = (3, 25, 3), btype = Stone\<rparr>)],
                     waterBlocks = [], generated = True\<rparr>)], 7)
   \<and> placeBlock (\<lambda>x z. 0) (\<lambda>i. 0) (3, 25, 3) Stone
        ([((0, 0), \<lparr>chunkX = 0, chunkZ = 0, blocks = [],
                    waterBlocks = [((3, 25, 3), \<lparr>wposition = (3, 25, 3), level = 1\<rparr>)],
                    generated = True\<rparr>)], 7)
       \<noteq> ([((0, 0), \<lparr>chunkX = 0, chunkZ = 0, blocks = [],
                    waterBlocks = [((3, 25, 3), \<lparr>wposition = (3, 25, 3), level = 1\<rparr>)],
                    generated = True\<rparr>)], 7)"
proof -
  let ?c = "\<lparr>chunkX = 0, chunkZ = 0, blocks = [],
             waterBlocks = [((3, 25, 3), \<lparr>wposition = (3, 25, 3), level = 1\<rparr>)],
             generated = True\<rparr> :: Chunk"
  have c: "getChunkCoord (real_of_int 3) (real_of_int 3) = (0, 0)"
    by (simp add: getChunkCoord_def)
  have h: "(0::int) \<le> 25" "(25::int) \<le> 420" "Stone \<noteq> Water"
    by simp_all
  note unloaded = placeBlock_generates_then_records[OF h c, of "[]" "\<lambda>x z. 0" "\<lambda>i. 0" 0]
  note cached = placeBlock_generates_then_records[OF h c, of "[((0, 0), ?c)]" "\<lambda>x z. 0" "\<lambda>i. 0" 7]
  have u1: "\<exists>chunk n'. generateChunk (\<lambda>x z. 0) (\<lambda>i. 0) 0 0 0 = (chunk, n')
         \<and> getOrGenerateChunk (\<lambda>x z. 0) (\<lambda>i. 0) 0 0 ([], 0) = (chunk, ([((0, 0), chunk)], n'))
         \<and> placeBlock (\<lambda>x z. 0) (\<lambda>i. 0) (3, 25, 3) Stone ([], 0) =
             ([((0, 0),
                chunk\<lparr>waterBlocks := AList.delete (3, 25, 3) (waterBlocks chunk),
                      blocks := AList.update (3, 25, 3)
                                  \<lparr>position = (3, 25, 3), btype = Stone\<rparr> (blocks chunk)\<rparr>)], n')
         \<and> placeBlock (\<lambda>x z. 0) (\<lambda>i. 0) (3, 25, 3) Stone ([], 0) \<noteq> ([], 0)"
    using unloaded by simp
  have u2: "\<exists>chunk'. map_of (fst (placeBlock (\<lambda>x z. 0) (\<lambda>i. 0) (3, 25, 3) Stone ([], 0))) (0, 0) = Some chunk'
         \<and> map_of (blocks chunk') (3, 25, 3) = Some \<lparr>position = (3, 25, 3), btype = Stone\<rparr>
         \<and> map_of (waterBlocks chunk') (3, 25, 3) = None"
    using unloaded by blast
  have c1: "placeBlock (\<lambda>x z. 0) (\<lambda>i. 0) (3, 25, 3) Stone ([((0, 0), ?c)], 7)
       = ([((0, 0), \<lparr>chunkX = 0, chunkZ = 0,
                     blocks = [((3, 25, 3), \<lparr>position = (3, 25, 3), btype = Stone\<rparr>)],
                     waterBlocks = [], generated = True\<rparr>)], 7)"
    using cached by simp
  have c2: "placeBlock (\<lambda>x z. 0) (\<lambda>i. 0) (3, 25, 3) Stone ([((0, 0), ?c)], 7) \<noteq> ([((0, 0), ?c)], 7)"
    using cached by simp
  show ?thesis
    using c u1 u2 c1 c2 by simp
qed

text \<open>
  C10. For a position \<open>(px, py, pz)\<close> whose chunk is cached and with \<open>py \<le> 20\<close>,
  \<open>removeBlock\<close> leaves in that chunk a water block of level 1 at the position and no
  solid block there, whatever the chunk held before (also when it held no solid block at
  the position).
\<close>

theorem removeBlock_fills_water:
  assumes "map_of cs (getChunkCoord (real_of_int px) (real_of_int pz)) = Some chunk"
    and "py \<le> 20"
  shows "\<exists>chunk'. map_of (fst (removeBlock (px, py, pz) (cs, n)))
                     (getChunkCoord (real_of_int px) (real_of_int pz)) = Some chunk'
           \<and> map_of (waterBlocks chunk') (px, py, pz) = Some \<lparr>wposition = (px, py, pz), level = 1\<rparr>
           \<and> map_of (blocks chunk') (px, py, pz) = None"
  using assms
  by (cases "getChunkCoord (real_of_int px) (real_of_int pz)")
     (simp add: removeBlock_def update_conv' delete_conv')

theorem removeBlock_fills_water_witness:
  "map_of [((0, 0), \<lparr>chunkX = 0, chunkZ = 0, blocks = [], waterBlocks = [], generated = True\<rparr>)]
     (getChunkCoord (real_of_int 0) (real_of_int 0))
     = Some \<lparr>chunkX = 0, chunkZ = 0, blocks = [], waterBlocks = [], generated = True\<rparr>
   \<and> (10::int) \<le> 20
   \<and> map_of (blocks \<lparr>chunkX = 0, chunkZ = 0, blocks = [], waterBlocks = [], generated = True\<rparr>)
        (0, 10, 0) = None
   \<and> (\<exists>chunk'. map_of (fst (removeBlock (0, 10, 0)
                   ([((0, 0), \<lparr>chunkX = 0, chunkZ = 0, blocks = [], waterBlocks = [],
                              generated = True\<rparr>)], 0)))
                 (getChunkCoord (real_of_int 0) (real_of_int 0)) = Some chunk'
         \<and> map_of (waterBlocks chunk') (0, 10, 0) = Some \<lparr>wposition = (0, 10, 0), level = 1\<rparr>
         \<and> map_of (blocks chunk') (0, 10, 0) = None)"
proof -
  have h: "map_of [((0, 0), \<lparr>chunkX = 0, chunkZ = 0, blocks = [], waterBlocks = [], generated = True\<rparr>)]
     (getChunkCoord (real_of_int 0) (real_of_int 0))
     = Some \<lparr>chunkX = 0, chunkZ = 0, blocks = [], waterBlocks = [], generated = True\<rparr>"
    by (simp add: getChunkCoord_def)
  show ?thesis
    using h removeBlock_fills_water[OF h, of 10 0] by simp
qed

section \<open>Collision\<close>

lemma scanGround_none:
  "(\<And>y'. -10 \<le> y' \<Longrightarrow> y' \<le> y \<Longrightarrow> map_of idx (\<lfloor>x / BLOCK_SIZE\<rfloor>, y', \<lfloor>z / BLOCK_SIZE\<rfloor>) = None)
   \<Longrightarrow> scanGround idx x z y = PLAYER_HEIGHT"
proof (induction idx x z y rule: scanGround.induct)
  case (1 idx x z y)
  show ?case
  proof (cases "y \<ge> -10")
    case True
    have "map_of idx (\<lfloor>x / BLOCK_SIZE\<rfloor>, y, \<lfloor>z / BLOCK_SIZE\<rfloor>) = None"
      using True 1(2)[of y] by simp
    moreover have "scanGround idx x z (y - 1) = PLAYER_HEIGHT"
      using 1(1) True calculation 1(2) by simp
    ultimately show ?thesis using True by simp
  next
    case False
    then show ?thesis by simp
  qed
qed

lemma scanGround_found:
  "-10 \<le> y0 \<Longrightarrow> y0 \<le> y \<Longrightarrow> map_of idx (\<lfloor>x / BLOCK_SIZE\<rfloor>, y0, \<lfloor>z / BLOCK_SIZE\<rfloor>) \<noteq> None
   \<Longrightarrow> (\<And>y'. y0 < y' \<Longrightarrow> y' \<le> y \<Longrightarrow> map_of idx (\<lfloor>x / BLOCK_SIZE\<rfloor>, y', \<lfloor>z / BLOCK_SIZE\<rfloor>) = None)
   \<Longrightarrow> scanGround idx x z y = (real_of_int y0 + 1) * BLOCK_SIZE + PLAYER_HEIGHT"
proof (induction idx x z y rule: scanGround.induct)
  case (1 idx x z y)
  show ?case
  proof (cases "y = y0")
    case True
    then show ?thesis using 1(2,4) by simp
  next
    case False
    then have lt: "y0 < y" using 1(3) by simp
    then have none: "map_of idx (\<lfloor>x / BLOCK_SIZE\<rfloor>, y, \<lfloor>z / BLOCK_SIZE\<rfloor>) = None"
      using 1(5)[of y] by simp
    have "scanGround idx x z (y - 1) = (real_of_int y0 + 1) * BLOCK_SIZE + PLAYER_HEIGHT"
      using 1(1) none lt 1(2) 1(4) 1(5) by simp
    then show ?thesis using none lt 1(2) by simp
  qed
qed

lemma floor_minus_one_real: "\<lfloor>- 1 :: real\<rfloor> = - 1"
  using floor_of_int[of "-1", where 'a = real] by simp

lemmas collision_defs =
  hasCollisionAtPosition_def updateBlocks_def getPlayerBoundingBox_def getBlockBoundingBox_def
  intersectsBox_def BLOCK_SIZE_def PLAYER_HEIGHT_def PLAYER_WIDTH_def Let_def list_ex_iff
  floor_minus_one_real

text \<open>
  C9. With \<open>(bx, bz) = (\<lfloor>x / 0.5\<rfloor>, \<lfloor>z / 0.5\<rfloor>)\<close> the column of \<open>(x, z)\<close> in the collision
  index: if \<open>y0\<close> in \<open>[-10, 200]\<close> is occupied in that column and no \<open>y\<close> in \<open>(y0, 200]\<close>
  is, \<open>getGroundHeight\<close> returns \<open>(y0 + 1) * 0.5 + 1.0\<close>; if no \<open>y\<close> in \<open>[-10, 200]\<close> is
  occupied it returns \<open>1.0\<close>. With one stone block recorded at \<open>(0, 5, 0)\<close>,
  \<open>getGroundHeight 0 0\<close> is \<open>4.0\<close>.
\<close>

theorem getGroundHeight_highest_occupied:
  "(\<forall>y0. -10 \<le> y0 \<and> y0 \<le> 200
         \<and> map_of idx (\<lfloor>x / (1 / 2)\<rfloor>, y0, \<lfloor>z / (1 / 2)\<rfloor>) \<noteq> None
         \<and> (\<forall>y. y0 < y \<and> y \<le> 200 \<longrightarrow> map_of idx (\<lfloor>x / (1 / 2)\<rfloor>, y, \<lfloor>z / (1 / 2)\<rfloor>) = None)
       \<longrightarrow> getGroundHeight idx x z = (real_of_int y0 + 1) * (1 / 2) + 1)
   \<and> ((\<forall>y. -10 \<le> y \<and> y \<le> 200 \<longrightarrow> map_of idx (\<lfloor>x / (1 / 2)\<rfloor>, y, \<lfloor>z / (1 / 2)\<rfloor>) = None)
       \<longrightarrow> getGroundHeight idx x z = 1)
   \<and> getGroundHeight (updateBlocks [\<lparr>position = (0, 5, 0), btype = Stone\<rparr>]) 0 0 = 4"
proof (intro conjI allI impI)
  fix y0
  assume "-10 \<le> y0 \<and> y0 \<le> 200
         \<and> map_of idx (\<lfloor>x / (1 / 2)\<rfloor>, y0, \<lfloor>z / (1 / 2)\<rfloor>) \<noteq> None
         \<and> (\<forall>y. y0 < y \<and> y \<le> 200 \<longrightarrow> map_of idx (\<lfloor>x / (1 / 2)\<rfloor>, y, \<lfloor>z / (1 / 2)\<rfloor>) = None)"
  then show "getGroundHeight idx x z = (real_of_int y0 + 1) * (1 / 2) + 1"
    using scanGround_found[of y0 200 idx x z]
    by (simp add: getGroundHeight_def BLOCK_SIZE_def PLAYER_HEIGHT_def)
next
  assume "\<forall>y. -10 \<le> y \<and> y \<le> 200 \<longrightarrow> map_of idx (\<lfloor>x / (1 / 2)\<rfloor>, y, \<lfloor>z / (1 / 2)\<rfloor>) = None"
  then show "getGroundHeight idx x z = 1"
    using scanGround_none[of 200 idx x z]
    by (simp add: getGroundHeight_def BLOCK_SIZE_def PLAYER_HEIGHT_def)
next
  show "getGroundHeight (updateBlocks [\<lparr>position = (0, 5, 0), btype = Stone\<rparr>]) 0 0 = 4"
    using scanGround_found[of 5 200 "updateBlocks [\<lparr>position = (0, 5, 0), btype = Stone\<rparr>]" 0 0]
    by (simp add: getGroundHeight_def BLOCK_SIZE_def PLAYER_HEIGHT_def updateBlocks_def)
qed

theorem getGroundHeight_highest_occupied_witness:
  "(-10 \<le> (5::int) \<and> (5::int) \<le> 200
      \<and> map_of (updateBlocks [\<lparr>position = (0, 5, 0), btype = Stone\<rparr>, \<lparr>position = (0, 2, 0), btype = Dirt\<rparr>])
           (\<lfloor>(1 / 4 :: real) / (1 / 2)\<rfloor>, 5, \<lfloor>(1 / 3 :: real) / (1 / 2)\<rfloor>) \<noteq> None
      \<and> \<not> (\<exists>y. 5 < y \<and> y \<le> 200 \<and>
            map_of (updateBlocks [\<lparr>position = (0, 5, 0), btype = Stone\<rparr>, \<lparr>position = (0, 2, 0), btype = Dirt\<rparr>])
              (\<lfloor>(1 / 4 :: real) / (1 / 2)\<rfloor>, y, \<lfloor>(1 / 3 :: real) / (1 / 2)\<rfloor>) \<noteq> None))
   \<and> getGroundHeight (updateBlocks [\<lparr>position = (0, 5, 0), btype = Stone\<rparr>,
                                    \<lparr>position = (0, 2, 0), btype = Dirt\<rparr>]) (1 / 4) (1 / 3) = 4
   \<and> \<not> (\<exists>y. -10 \<le> y \<and> y \<le> 200 \<and>
          map_of (updateBlocks [\<lparr>position = (1, 5, 0), btype = Stone\<rparr>])
            (\<lfloor>(1 / 4 :: real) / (1 / 2)\<rfloor>, y, \<lfloor>(1 / 3 :: real) / (1 / 2)\<rfloor>) \<noteq> None)
   \<and> getGroundHeight (updateBlocks [\<lparr>position = (1, 5, 0), btype = Stone\<rparr>]) (1 / 4) (1 / 3) = 1"
proof -
  have a: "-10 \<le> (5::int) \<and> (5::int) \<le> 200
      \<and> map_of (updateBlocks [\<lparr>position = (0, 5, 0), btype = Stone\<rparr>, \<lparr>position = (0, 2, 0), btype = Dirt\<rparr>])
           (\<lfloor>(1 / 4 :: real) / (1 / 2)\<rfloor>, 5, \<lfloor>(1 / 3 :: real) / (1 / 2)\<rfloor>) \<noteq> None
      \<and> (\<forall>y. 5 < y \<and> y \<le> 200 \<longrightarrow>
            map_of (updateBlocks [\<lparr>position = (0, 5, 0), btype = Stone\<rparr>, \<lparr>position = (0, 2, 0), btype = Dirt\<rparr>])
              (\<lfloor>(1 / 4 :: real) / (1 / 2)\<rfloor>, y, \<lfloor>(1 / 3 :: real) / (1 / 2)\<rfloor>) = None)"
    by (simp add: updateBlocks_def)
  have b: "\<forall>y. -10 \<le> y \<and> y \<le> 200 \<longrightarrow>
          map_of (updateBlocks [\<lparr>position = (1, 5, 0), btype = Stone\<rparr>])
            (\<lfloor>(1 / 4 :: real) / (1 / 2)\<rfloor>, y, \<lfloor>(1 / 3 :: real) / (1 / 2)\<rfloor>) = None"
    by (simp add: updateBlocks_def)
  have "getGroundHeight (updateBlocks [\<lparr>position = (0, 5, 0), btype = Stone\<rparr>,
                                    \<lparr>position = (0, 2, 0), btype = Dirt\<rparr>]) (1 / 4) (1 / 3)
          = (real_of_int 5 + 1) * (1 / 2) + 1"
    using getGroundHeight_highest_occupied[of
        "updateBlocks [\<lparr>position = (0, 5, 0), btype = Stone\<rparr>, \<lparr>position = (0, 2, 0), btype = Dirt\<rparr>]"
        "1 / 4" "1 / 3"] a by blast
  moreover have "getGroundHeight (updateBlocks [\<lparr>position = (1, 5, 0), btype = Stone\<rparr>]) (1 / 4) (1 / 3) = 1"
    using getGroundHeight_highest_occupied[of
        "updateBlocks [\<lparr>position = (1, 5, 0), btype = Stone\<rparr>]" "1 / 4" "1 / 3"] b by blast
  ultimately show ?thesis using a b by simp
qed

text \<open>
  C5. \<open>checkCollision\<close> applies the displacement one axis at a time in the order X, Y, Z:
  the X move is tested from the original position, the Y move from the X-corrected one,
  the Z move from the X- and Y-corrected one, and an axis whose test overlaps is set back
  to its value before the move. For an index whose only occupied cell is \<open>(0, 0, 0)\<close> and a
  move with positive X and Z components whose X test overlaps and whose Z test (from the
  corrected position) does not, the result keeps the old \<open>x\<close> and has the full Z
  component applied.
\<close>

theorem checkCollision_axis_order:
  "checkCollision idx pos velocity =
     (let x' = (if hasCollisionAtPosition idx \<lparr>vx = vx pos + vx velocity, vy = vy pos, vz = vz pos\<rparr>
                then vx pos else vx pos + vx velocity);
          y' = (if hasCollisionAtPosition idx \<lparr>vx = x', vy = vy pos + vy velocity, vz = vz pos\<rparr>
                then vy pos else vy pos + vy velocity);
          z' = (if hasCollisionAtPosition idx \<lparr>vx = x', vy = y', vz = vz pos + vz velocity\<rparr>
                then vz pos else vz pos + vz velocity)
      in \<lparr>vx = x', vy = y', vz = z'\<rparr>)
   \<and> ((\<forall>k. (map_of idx k \<noteq> None) = (k = (0, 0, 0)))
        \<and> 0 < vx velocity \<and> 0 < vz velocity
        \<and> hasCollisionAtPosition idx \<lparr>vx = vx pos + vx velocity, vy = vy pos, vz = vz pos\<rparr>
        \<and> \<not> hasCollisionAtPosition idx
              \<lparr>vx = vx pos,
               vy = (if hasCollisionAtPosition idx \<lparr>vx = vx pos, vy = vy pos + vy velocity, vz = vz pos\<rparr>
                     then vy pos else vy pos + vy velocity),
               vz = vz pos + vz velocity\<rparr>
      \<longrightarrow> vx (checkCollision idx pos velocity) = vx pos
          \<and> vz (checkCollision idx pos velocity) = vz pos + vz velocity)"
  by (simp add: checkCollision_def Let_def)

theorem checkCollision_axis_order_witness:
  "(\<forall>k. (map_of (updateBlocks [\<lparr>position = (0, 0, 0), btype = Stone\<rparr>]) k \<noteq> None) = (k = (0, 0, 0)))
   \<and> (0::real) < 1 / 2 \<and> (0::real) < 1
   \<and> hasCollisionAtPosition (updateBlocks [\<lparr>position = (0, 0, 0), btype = Stone\<rparr>])
        \<lparr>vx = - (1 / 2) + 1 / 2, vy = 1 / 2, vz = 0\<rparr>
   \<and> \<not> hasCollisionAtPosition (updateBlocks [\<lparr>position = (0, 0, 0), btype = Stone\<rparr>])
        \<lparr>vx = - (1 / 2), vy = 1 / 2, vz = 0 + 1\<rparr>
   \<and> checkCollision (updateBlocks [\<lparr>position = (0, 0, 0), btype = Stone\<rparr>])
        \<lparr>vx = - (1 / 2), vy = 1 / 2, vz = 0\<rparr> \<lparr>vx = 1 / 2, vy = 0, vz = 1\<rparr>
      = \<lparr>vx = - (1 / 2), vy = 1 / 2, vz = 1\<rparr>"
proof -
  let ?idx = "updateBlocks [\<lparr>position = (0, 0, 0), btype = Stone\<rparr>]"
  let ?p = "\<lparr>vx = - (1 / 2), vy = 1 / 2, vz = 0\<rparr> :: Vector3"
  let ?v = "\<lparr>vx = 1 / 2, vy = 0, vz = 1\<rparr> :: Vector3"
  have one: "\<forall>k. (map_of ?idx k \<noteq> None) = (k = (0, 0, 0))"
    by (simp add: updateBlocks_def)
  have hx: "hasCollisionAtPosition ?idx \<lparr>vx = 0, vy = 1 / 2, vz = 0\<rparr>"
    by (simp add: collision_defs)
  have hy: "\<not> hasCollisionAtPosition ?idx \<lparr>vx = - (1 / 2), vy = 1 / 2, vz = 0\<rparr>"
    by (simp add: collision_defs)
  have hz: "\<not> hasCollisionAtPosition ?idx \<lparr>vx = - (1 / 2), vy = 1 / 2, vz = 1\<rparr>"
    by (simp add: collision_defs)
  have "checkCollision ?idx ?p ?v = \<lparr>vx = - (1 / 2), vy = 1 / 2, vz = 1\<rparr>"
    using checkCollision_axis_order[of ?idx ?p ?v] hx hy hz by (simp add: Let_def)
  then show ?thesis using one hx hz by simp
qed

section \<open>Invariant rules for generation\<close>

lemma fold_fst_invariant:
  assumes "P (fst s)" and "\<And>x s. x \<in> set xs \<Longrightarrow> P (fst s) \<Longrightarrow> P (fst (f x s))"
  shows "P (fst (fold f xs s))"
  using assms by (induction xs arbitrary: s) auto

lemma placeLeaf_rule:
  assumes "P (fst s)"
    and "\<And>c x y z t. P c \<Longrightarrow> crown < y \<Longrightarrow> P (setBlockInChunk c x y z t)"
  shows "P (fst (placeLeaf rand wx wz crown lx lz s))"
  using assms by (cases s) (simp add: placeLeaf_def Let_def)

lemma placeTree_rule:
  assumes "P (fst s)"
    and step: "\<And>c x y z t. P c \<Longrightarrow> (0 \<le> rand (snd s) \<longrightarrow> h < y) \<Longrightarrow> P (setBlockInChunk c x y z t)"
  shows "P (fst (placeTree rand wx wz h s))"
proof -
  obtain c n where s: "s = (c, n)" by (cases s)
  define th where "th = 6 + (\<lfloor>rand n * 4\<rfloor> :: int)"
  have th: "6 \<le> th" if "0 \<le> rand n"
    using that by (simp add: th_def)
  have trunk: "P (fold (\<lambda>treeY c. setBlockInChunk c wx treeY wz Wood) [h + 1 .. h + th] c)"
  proof (rule fold_invariant[where Q = "\<lambda>y. h < y"])
    show "P c" using assms(1) s by simp
  next
    fix y assume "y \<in> set [h + 1 .. h + th]"
    then show "h < y" by simp
  next
    fix y c' assume "h < y" "P c'"
    then show "P (setBlockInChunk c' wx y wz Wood)" by (intro step) simp_all
  qed
  have leaf: "P (fst (placeLeaf rand wx wz (h + th) lx lz s'))" if "P (fst s')" for lx lz s'
  proof (rule placeLeaf_rule[where P = P, OF that])
    fix c' x y z t assume c': "P c'" and y: "h + th < y"
    have "0 \<le> rand (snd s) \<longrightarrow> h < y"
      using th y s by auto
    then show "P (setBlockInChunk c' x y z t)" using c' by (rule step[rotated])
  qed
  have row: "P (fst (fold (\<lambda>leafZ. placeLeaf rand wx wz (h + th) lx leafZ) [wz - 2 .. wz + 2] s'))"
    if "P (fst s')" for lx s'
    using that by (rule fold_fst_invariant[where P = P]) (rule leaf)
  have "P (fst (fold (\<lambda>leafX. fold (\<lambda>leafZ. placeLeaf rand wx wz (h + th) leafX leafZ)
                            [wz - 2 .. wz + 2]) [wx - 2 .. wx + 2]
                 (fold (\<lambda>treeY c. setBlockInChunk c wx treeY wz Wood) [h + 1 .. h + th] c, n + 1)))"
    by (rule fold_fst_invariant[where P = P]) (simp_all add: trunk row)
  then show ?thesis by (simp add: placeTree_def s th_def Let_def)
qed

lemma genColumn_rule:
  assumes "P (fst s)"
    and terr: "\<And>c y. P c \<Longrightarrow> 0 \<le> y \<Longrightarrow> y \<le> clampedHeight nz wx wz
                \<Longrightarrow> P (setBlockInChunk c wx y wz (terrainType y (clampedHeight nz wx wz)))"
    and wat: "\<And>c y. P c \<Longrightarrow> clampedHeight nz wx wz < y \<Longrightarrow> y \<le> 20
                \<Longrightarrow> P (setWaterBlockInChunk c wx y wz 1)"
    and tree: "\<And>c x y z t. P c \<Longrightarrow> (random_source rand \<longrightarrow> 22 < y) \<Longrightarrow> P (setBlockInChunk c x y z t)"
  shows "P (fst (genColumn nz rand wx wz s))"
proof -
  obtain c n where s: "s = (c, n)" by (cases s)
  define h where "h = clampedHeight nz wx wz"
  define c1 where "c1 = fold (\<lambda>y c. setBlockInChunk c wx y wz (terrainType y h)) [0 .. h] c"
  define c2 where "c2 = (if h < 20 then fold (\<lambda>y c. setWaterBlockInChunk c wx y wz 1) [h + 1 .. 20] c1 else c1)"
  have p1: "P c1" unfolding c1_def
  proof (rule fold_invariant[where Q = "\<lambda>y. 0 \<le> y \<and> y \<le> h"])
    show "P c" using assms(1) s by simp
  next
    fix y assume "y \<in> set [0 .. h]"
    then show "0 \<le> y \<and> y \<le> h" by simp
  next
    fix y c' assume "0 \<le> y \<and> y \<le> h" "P c'"
    then show "P (setBlockInChunk c' wx y wz (terrainType y h))"
      unfolding h_def by (intro terr) simp_all
  qed
  have pw: "P (fold (\<lambda>y c. setWaterBlockInChunk c wx y wz 1) [h + 1 .. 20] c1)"
  proof (rule fold_invariant[where Q = "\<lambda>y. h < y \<and> y \<le> 20"])
    show "P c1" by (rule p1)
  next
    fix y assume "y \<in> set [h + 1 .. 20]"
    then show "h < y \<and> y \<le> 20" by simp
  next
    fix y c' assume "h < y \<and> y \<le> 20" "P c'"
    then show "P (setWaterBlockInChunk c' wx y wz 1)"
      unfolding h_def by (intro wat) simp_all
  qed
  have p2: "P c2" unfolding c2_def using p1 pw by simp
  have p3: "P (fst (placeTree rand wx wz h (c2, n + 1)))" if "22 < h"
  proof (rule placeTree_rule[where P = P])
    show "P (fst (c2, n + 1))" using p2 by simp
  next
    fix c' x y z t assume c': "P c'" and y: "0 \<le> rand (snd (c2, n + 1)) \<longrightarrow> h < y"
    have "random_source rand \<longrightarrow> 22 < y"
      using y that by (auto simp: random_source_def)
    then show "P (setBlockInChunk c' x y z t)" using c' by (rule tree[rotated])
  qed
  have "genColumn nz rand wx wz s =
          (if 22 < h \<and> h < 60
           then (if rand n < 3 / 100 then placeTree rand wx wz h (c2, n + 1) else (c2, n + 1))
           else (c2, n))"
    by (simp add: genColumn_def s Let_def h_def c1_def c2_def)
  then show ?thesis
    using p2 p3 by simp
qed

lemma generateChunk_rule:
  assumes init: "P \<lparr>chunkX = cx, chunkZ = cz, blocks = [], waterBlocks = [], generated = True\<rparr>"
    and terr: "\<And>c x y z. P c \<Longrightarrow> in_chunk cx cz x z \<Longrightarrow> 0 \<le> y \<Longrightarrow> y \<le> clampedHeight nz x z
                \<Longrightarrow> P (setBlockInChunk c x y z (terrainType y (clampedHeight nz x z)))"
    and wat: "\<And>c x y z. P c \<Longrightarrow> in_chunk cx cz x z \<Longrightarrow> clampedHeight nz x z < y \<Longrightarrow> y \<le> 20
                \<Longrightarrow> P (setWaterBlockInChunk c x y z 1)"
    and tree: "\<And>c x y z t. P c \<Longrightarrow> (random_source rand \<longrightarrow> 22 < y) \<Longrightarrow> P (setBlockInChunk c x y z t)"
  shows "P (fst (generateChunk nz rand n cx cz))"
proof -
  have col: "P (fst (genColumn nz rand (cx * 8 + lx) (cz * 8 + lz) s))"
    if "P (fst s)" "lx \<in> set [0 .. 7]" "lz \<in> set [0 .. 7]" for lx lz s
  proof (rule genColumn_rule[where P = P, OF that(1)])
    have ic: "in_chunk cx cz (cx * 8 + lx) (cz * 8 + lz)"
      using that(2,3) by (simp add: in_chunk_def)
    show "P (setBlockInChunk c (cx * 8 + lx) y (cz * 8 + lz)
              (terrainType y (clampedHeight nz (cx * 8 + lx) (cz * 8 + lz))))"
      if "P c" "0 \<le> y" "y \<le> clampedHeight nz (cx * 8 + lx) (cz * 8 + lz)" for c y
      using that ic by (intro terr)
    show "P (setWaterBlockInChunk c (cx * 8 + lx) y (cz * 8 + lz) 1)"
      if "P c" "clampedHeight nz (cx * 8 + lx) (cz * 8 + lz) < y" "y \<le> 20" for c y
      using that ic by (intro wat)
    show "P (setBlockInChunk c x y z t)" if "P c" "random_source rand \<longrightarrow> 22 < y" for c x y z t
      using that by (rule tree)
  qed
  have row: "P (fst (fold (\<lambda>localZ. genColumn nz rand (cx * 8 + lx) (cz * 8 + localZ)) [0 .. 7] s))"
    if "P (fst s)" "lx \<in> set [0 .. 7]" for lx s
    using that(1) by (rule fold_fst_invariant[where P = P]) (rule col[OF _ that(2)])
  have "P (fst (fold (\<lambda>localX. fold (\<lambda>localZ. genColumn nz rand (cx * 8 + localX) (cz * 8 + localZ))
                                   [0 .. 7]) [0 .. 7]
                 (\<lparr>chunkX = cx, chunkZ = cz, blocks = [], waterBlocks = [], generated = True\<rparr>, n)))"
    by (rule fold_fst_invariant[where P = P]) (simp_all add: init row del: upto.simps)
  then show ?thesis
    by (simp add: generateChunk_def Let_def)
qed

section \<open>Snapshot round trip\<close>

lemma setEntries_entriesArray:
  "distinct (map fst (acc @ xs)) \<Longrightarrow> setEntries (entriesArray xs) acc = Inr (acc @ xs)"
proof (induction xs arbitrary: acc)
  case Nil
  then show ?case by (simp add: entriesArray_def)
next
  case (Cons x xs)
  obtain k v where x: "x = (k, v)" by (cases x)
  have "map_of acc k = None"
    using Cons.prems x by (auto simp: map_of_eq_None_iff)
  then have "AList.update k v acc = acc @ [(k, v)]" by (rule update_absent)
  moreover have "distinct (map fst ((acc @ [(k, v)]) @ xs))"
    using Cons.prems x by simp
  ultimately show ?case
    using Cons.IH[of "acc @ [(k, v)]"] x by (simp add: entriesArray_def)
qed

lemma fold_update_map_append:
  "distinct (map fst acc @ map fst xs) \<Longrightarrow>
   fold (\<lambda>(k, c). AList.update k (f c)) xs acc = acc @ map (\<lambda>(k, c). (k, f c)) xs"
proof (induction xs arbitrary: acc)
  case Nil
  then show ?case by simp
next
  case (Cons x xs)
  obtain k v where x: "x = (k, v)" by (cases x)
  have "map_of acc k = None"
    using Cons.prems x by (auto simp: map_of_eq_None_iff)
  then have "AList.update k (f v) acc = acc @ [(k, f v)]" by (rule update_absent)
  moreover have "distinct (map fst (acc @ [(k, f v)]) @ map fst xs)"
    using Cons.prems x by simp
  ultimately show ?case
    using Cons.IH[of "acc @ [(k, f v)]"] x by simp
qed

lemma getWorldData_encode:
  "distinct (map fst cs) \<Longrightarrow> getWorldData cs = WorldData (map (\<lambda>(key, chunk). (key, encodeChunk chunk)) cs)"
  using fold_update_map_append[of "[]" cs encodeChunk]
  by (simp add: getWorldData_def encodeChunk_def[abs_def])

lemma loadChunk_encode:
  assumes "chunk_ok c" and "map_of acc k = None"
  shows "loadChunk (k, encodeChunk c) acc = Inr (acc @ [(k, c)])"
proof -
  have b: "setEntries (entriesArray (blocks c)) [] = Inr (blocks c)"
    using setEntries_entriesArray[of "[]" "blocks c"] assms(1) by (simp add: chunk_ok_def)
  have w: "setEntries (entriesArray (waterBlocks c)) [] = Inr (waterBlocks c)"
    using setEntries_entriesArray[of "[]" "waterBlocks c"] assms(1) by (simp add: chunk_ok_def)
  have g: "generated c" using assms(1) by (simp add: chunk_ok_def)
  have "\<lparr>chunkX = chunkX c, chunkZ = chunkZ c, blocks = blocks c, waterBlocks = waterBlocks c,
         generated = True\<rparr> = c"
    using g by (cases c) simp
  then show ?thesis
    using b w assms(2)
    by (simp add: loadChunk_def encodeChunk_def loadEntries_def update_absent)
qed

lemma loadChunks_encode:
  "distinct (map fst (acc @ cs)) \<Longrightarrow> (\<And>k c. (k, c) \<in> set cs \<Longrightarrow> chunk_ok c) \<Longrightarrow>
   loadChunks (map (\<lambda>(key, chunk). (key, encodeChunk chunk)) cs) acc = (acc @ cs, Inr ())"
proof (induction cs arbitrary: acc)
  case Nil
  then show ?case by simp
next
  case (Cons x cs)
  obtain k c where x: "x = (k, c)" by (cases x)
  have none: "map_of acc k = None"
    using Cons.prems(1) x by (auto simp: map_of_eq_None_iff)
  have ok: "chunk_ok c" using Cons.prems(2)[of k c] x by simp
  have "loadChunks (map (\<lambda>(key, chunk). (key, encodeChunk chunk)) cs) (acc @ [(k, c)])
          = ((acc @ [(k, c)]) @ cs, Inr ())"
    using Cons.prems x by (intro Cons.IH) auto
  then show ?case
    using loadChunk_encode[OF ok none] x by simp
qed

lemma roundtrip_exact:
  assumes "cache_ok cs"
  shows "loadWorldData (getWorldData cs) cs' = (cs, Inr ())"
proof -
  have d: "distinct (map fst cs)" using assms by (simp add: cache_ok_def)
  have "chunk_ok c" if "(k, c) \<in> set cs" for k c
  proof -
    have "map_of cs k = Some c" using d that by simp
    then show ?thesis using assms unfolding cache_ok_def by blast
  qed
  then have "loadChunks (map (\<lambda>(key, chunk). (key, encodeChunk chunk)) cs) [] = ([] @ cs, Inr ())"
    using d by (intro loadChunks_encode) auto
  then show ?thesis
    by (simp add: loadWorldData_def getWorldData_encode[OF d])
qed

section \<open>The cache invariant is preserved\<close>

lemma chunk_ok_setBlockInChunk: "chunk_ok c \<Longrightarrow> chunk_ok (setBlockInChunk c x y z t)"
  by (simp add: chunk_ok_def setBlockInChunk_def distinct_update)

lemma chunk_ok_setWaterBlockInChunk: "chunk_ok c \<Longrightarrow> chunk_ok (setWaterBlockInChunk c x y z l)"
  by (simp add: chunk_ok_def setWaterBlockInChunk_def distinct_update)

lemma chunk_ok_generateChunk: "chunk_ok (fst (generateChunk nz rand n cx cz))"
  by (rule generateChunk_rule[where P = chunk_ok])
     (simp_all add: chunk_ok_setBlockInChunk chunk_ok_setWaterBlockInChunk, simp add: chunk_ok_def)

lemma cache_ok_update: "cache_ok cs \<Longrightarrow> chunk_ok c \<Longrightarrow> cache_ok (AList.update k c cs)"
  by (auto simp: cache_ok_def distinct_update update_conv' split: if_splits)

lemma cache_ok_delete: "cache_ok cs \<Longrightarrow> cache_ok (AList.delete k cs)"
  by (auto simp: cache_ok_def distinct_delete delete_conv' split: if_splits)

lemma cache_ok_fold_delete: "cache_ok cs \<Longrightarrow> cache_ok (fold AList.delete ks cs)"
  by (induction ks arbitrary: cs) (simp_all add: cache_ok_delete)

lemma cache_ok_getOrGenerateChunk:
  assumes "cache_ok (fst s)"
  shows "cache_ok (fst (snd (getOrGenerateChunk nz rand cx cz s)))"
    and "chunk_ok (fst (getOrGenerateChunk nz rand cx cz s))"
proof -
  obtain cs n where s: "s = (cs, n)" by (cases s)
  obtain c n' where g: "generateChunk nz rand n cx cz = (c, n')" by (cases "generateChunk nz rand n cx cz")
  have c: "chunk_ok c" using chunk_ok_generateChunk[of nz rand n cx cz] g by simp
  show "cache_ok (fst (snd (getOrGenerateChunk nz rand cx cz s)))"
    using assms s g c by (auto simp: getOrGenerateChunk_def cache_ok_update split: option.splits)
  show "chunk_ok (fst (getOrGenerateChunk nz rand cx cz s))"
    using assms s g c by (auto simp: getOrGenerateChunk_def cache_ok_def split: option.splits)
qed

lemma fold_snd_invariant:
  assumes "P (snd s)" and "\<And>x s. x \<in> set xs \<Longrightarrow> P (snd s) \<Longrightarrow> P (snd (f x s))"
  shows "P (snd (fold f xs s))"
  using assms by (induction xs arbitrary: s) auto

lemma cache_ok_updateLoadedChunks:
  assumes "cache_ok (fst s)"
  shows "cache_ok (fst (updateLoadedChunks nz rand playerX playerZ s))"
proof -
  obtain pcx pcz where pc: "getChunkCoord playerX playerZ = (pcx, pcz)"
    by (cases "getChunkCoord playerX playerZ")
  define step where "step = (\<lambda>x z (ls :: (int \<times> int) list \<times> store).
      case ls of (loaded, st) \<Rightarrow> (List.insert (x, z) loaded, snd (getOrGenerateChunk nz rand x z st)))"
  have one: "cache_ok (fst (snd (step x z ls)))" if "cache_ok (fst (snd ls))" for x z ls
    using that by (cases ls) (simp add: step_def cache_ok_getOrGenerateChunk(1))
  have row: "cache_ok (fst (snd (fold (step x) zs ls)))" if "cache_ok (fst (snd ls))" for x zs ls
    using that by (rule fold_snd_invariant[where P = "\<lambda>st. cache_ok (fst st)"]) (rule one)
  have all: "cache_ok (fst (snd (fold (\<lambda>x. fold (step x) zs) xs ([], s))))" for xs zs
    by (rule fold_snd_invariant[where P = "\<lambda>st. cache_ok (fst st)"]) (simp_all add: assms row)
  obtain loaded cs n where r: "fold (\<lambda>x. fold (step x) [pcz - 3 .. pcz + 3]) [pcx - 3 .. pcx + 3] ([], s)
        = (loaded, (cs, n))"
    by (metis prod.exhaust)
  have "cache_ok cs" using all[of "[pcz - 3 .. pcz + 3]" "[pcx - 3 .. pcx + 3]"] r by simp
  then show ?thesis
    using r by (simp add: updateLoadedChunks_def pc step_def cache_ok_fold_delete Let_def)
qed


lemma cache_ok_placeBlock:
  assumes "cache_ok (fst s)"
  shows "cache_ok (fst (placeBlock nz rand pos t s))"
proof -
  obtain px py pz where pos: "pos = (px, py, pz)" by (cases pos)
  obtain cx cz where cc: "getChunkCoord (real_of_int px) (real_of_int pz) = (cx, cz)"
    by (cases "getChunkCoord (real_of_int px) (real_of_int pz)")
  obtain chunk cs n where g: "getOrGenerateChunk nz rand cx cz s = (chunk, (cs, n))"
    by (metis prod.exhaust)
  have cs: "cache_ok cs" and c: "chunk_ok chunk"
    using cache_ok_getOrGenerateChunk[OF assms, of nz rand cx cz] g by simp_all
  have "chunk_ok (chunk\<lparr>waterBlocks := AList.delete (px, py, pz) (waterBlocks chunk),
                       blocks := AList.update (px, py, pz) \<lparr>position = (px, py, pz), btype = t\<rparr>
                                   (blocks chunk)\<rparr>)"
    using c by (simp add: chunk_ok_def distinct_update distinct_delete)
  then show ?thesis
    using assms cs by (simp add: placeBlock_def pos cc g cache_ok_update)
qed

lemma cache_ok_removeBlock:
  assumes "cache_ok (fst s)"
  shows "cache_ok (fst (removeBlock pos s))"
proof -
  obtain px py pz where pos: "pos = (px, py, pz)" by (cases pos)
  obtain cs n where s: "s = (cs, n)" by (cases s)
  obtain cx cz where cc: "getChunkCoord (real_of_int px) (real_of_int pz) = (cx, cz)"
    by (cases "getChunkCoord (real_of_int px) (real_of_int pz)")
  show ?thesis
  proof (cases "map_of cs (cx, cz)")
    case None
    then show ?thesis using assms by (simp add: removeBlock_def pos s cc)
  next
    case (Some chunk)
    then have c: "chunk_ok chunk" using assms s by (auto simp: cache_ok_def)
    have "chunk_ok (chunk\<lparr>blocks := AList.delete (px, py, pz) (blocks chunk)\<rparr>)"
      "chunk_ok (chunk\<lparr>blocks := AList.delete (px, py, pz) (blocks chunk),
                       waterBlocks := AList.update (px, py, pz) \<lparr>wposition = (px, py, pz), level = 1\<rparr>
                                        (waterBlocks chunk)\<rparr>)"
      using c by (simp_all add: chunk_ok_def distinct_update distinct_delete)
    then show ?thesis
      using assms Some by (simp add: removeBlock_def pos s cc cache_ok_update Let_def)
  qed
qed

lemma cache_ok_apply_op: "cache_ok (fst s) \<Longrightarrow> cache_ok (fst (apply_op nz rand a s))"
  by (cases a)
     (simp_all add: cache_ok_placeBlock cache_ok_removeBlock cache_ok_updateLoadedChunks
        cache_ok_getOrGenerateChunk(1))

lemma cache_ok_run_ops: "cache_ok (fst s) \<Longrightarrow> cache_ok (fst (run_ops nz rand ops s))"
  unfolding run_ops_def by (induction ops arbitrary: s) (simp_all add: cache_ok_apply_op)

lemma distinct_setEntries:
  "distinct (map fst m) \<Longrightarrow> setEntries es m = Inr m' \<Longrightarrow> distinct (map fst m')"
  by (induction es m rule: setEntries.induct) (simp_all add: distinct_update)

lemma distinct_loadEntries:
  "distinct (map fst m) \<Longrightarrow> loadEntries f m = Inr m' \<Longrightarrow> distinct (map fst m')"
  by (cases f) (auto simp: loadEntries_def distinct_setEntries)

lemma cache_ok_loadChunk:
  assumes "cache_ok cs" and "loadChunk entry cs = Inr cs'"
  shows "cache_ok cs'"
proof -
  obtain key r where e: "entry = (key, r)" by (cases entry)
  from assms(2) obtain cd where r: "r = ChunkRecord cd"
    by (cases r) (simp_all add: loadChunk_def e)
  from assms(2) obtain bs ws where
    b: "loadEntries (dataBlocks cd) [] = Inr bs" and w: "loadEntries (dataWaterBlocks cd) [] = Inr ws"
    and cs': "cs' = AList.update key \<lparr>chunkX = dataX cd, chunkZ = dataZ cd, blocks = bs,
                                      waterBlocks = ws, generated = True\<rparr> cs"
    by (auto simp: loadChunk_def e r Let_def split: sum.splits)
  have "distinct (map fst bs)" "distinct (map fst ws)"
    using distinct_loadEntries[OF _ b] distinct_loadEntries[OF _ w] by simp_all
  then show ?thesis
    using assms(1) by (simp add: cs' cache_ok_update chunk_ok_def)
qed

lemma cache_ok_loadChunks: "cache_ok cs \<Longrightarrow> cache_ok (fst (loadChunks entries cs))"
  by (induction entries arbitrary: cs) (auto simp: cache_ok_loadChunk split: sum.splits)

lemma cache_ok_Nil: "cache_ok []"
  by (simp add: cache_ok_def)

lemma cache_ok_loadWorldData: "cache_ok cs \<Longrightarrow> cache_ok (fst (loadWorldData data cs))"
  by (cases data) (simp_all add: loadWorldData_def cache_ok_loadChunks cache_ok_Nil)

lemma reachable_cache_ok: "reachable nz rand s \<Longrightarrow> cache_ok (fst s)"
  by (induction rule: reachable.induct)
     (simp_all add: cache_ok_Nil cache_ok_apply_op cache_ok_loadWorldData)

text \<open>
  C2. For every state of the store that the operations of \<open>ChunkManager\<close> can reach,
  restoring its snapshot into any cache rebuilds the cache exactly and returns normally:
  the same chunk keys in the same order and, for each chunk, the same entries of blocks and
  of water and the same flag.
\<close>

theorem loadWorldData_getWorldData_exact:
  assumes "reachable nz rand (cs, n)"
  shows "loadWorldData (getWorldData cs) cs' = (cs, Inr ())"
  using reachable_cache_ok[OF assms] by (simp add: roundtrip_exact)

theorem loadWorldData_getWorldData_exact_witness:
  "reachable (\<lambda>x z. 0) (\<lambda>i. 0)
     ([((0, 0), \<lparr>chunkX = 0, chunkZ = 0, blocks = [],
                 waterBlocks = [((1, 2, 3), \<lparr>wposition = (1, 2, 3), level = 1\<rparr>)],
                 generated = True\<rparr>)], 0)
   \<and> loadWorldData
        (getWorldData [((0, 0), \<lparr>chunkX = 0, chunkZ = 0, blocks = [],
                                 waterBlocks = [((1, 2, 3), \<lparr>wposition = (1, 2, 3), level = 1\<rparr>)],
                                 generated = True\<rparr>)])
        []
     = ([((0, 0), \<lparr>chunkX = 0, chunkZ = 0, blocks = [],
                   waterBlocks = [((1, 2, 3), \<lparr>wposition = (1, 2, 3), level = 1\<rparr>)],
                   generated = True\<rparr>)], Inr ())"
proof -
  let ?d = "WorldData [((0, 0), ChunkRecord \<lparr>dataX = 0, dataZ = 0,
                dataBlocks = Listed [KeyValue (1, 2, 3) \<lparr>position = (1, 2, 3), btype = Stone\<rparr>],
                dataWaterBlocks = Absent, dataGenerated = False\<rparr>)]"
  let ?c0 = "[((0, 0), \<lparr>chunkX = 0, chunkZ = 0,
                blocks = [((1, 2, 3), \<lparr>position = (1, 2, 3), btype = Stone\<rparr>)],
                waterBlocks = [], generated = True\<rparr>)] :: chunks"
  let ?c1 = "[((0, 0), \<lparr>chunkX = 0, chunkZ = 0, blocks = [],
                 waterBlocks = [((1, 2, 3), \<lparr>wposition = (1, 2, 3), level = 1\<rparr>)],
                 generated = True\<rparr>)] :: chunks"
  have l: "fst (loadWorldData ?d []) = ?c0"
    by (simp add: loadWorldData_def loadChunk_def loadEntries_def)
  have r: "apply_op (\<lambda>x z. 0) (\<lambda>i. 0) (RemoveBlock (1, 2, 3)) (?c0, 0) = (?c1, 0)"
    by (simp add: removeBlock_def getChunkCoord_def)
  have "reachable (\<lambda>x z. 0) (\<lambda>i. 0) (fst (loadWorldData ?d []), 0)"
    by (rule reach_load) (rule reach_new)
  then have "reachable (\<lambda>x z. 0) (\<lambda>i. 0) (?c0, 0)" by (simp only: l)
  then have "reachable (\<lambda>x z. 0) (\<lambda>i. 0) (apply_op (\<lambda>x z. 0) (\<lambda>i. 0) (RemoveBlock (1, 2, 3)) (?c0, 0))"
    by (rule reach_op)
  then have re: "reachable (\<lambda>x z. 0) (\<lambda>i. 0) (?c1, 0)" by (simp only: r)
  show ?thesis
    using re loadWorldData_getWorldData_exact[OF re, of "[]"] by simp
qed

text \<open>
  C7. For the store built from the empty cache by any finite sequence of
  \<open>getOrGenerateChunk\<close>, \<open>updateLoadedChunks\<close>, \<open>placeBlock\<close> and \<open>removeBlock\<close>, restoring
  its snapshot into any cache gives a cache whose flattened block list and water list are
  those of the store (as lists, hence as sets).
\<close>

theorem restore_snapshot_same_flattened:
  "getAllLoadedBlocks (fst (loadWorldData (getWorldData (fst (run_ops nz rand ops ([], n)))) cs'))
     = getAllLoadedBlocks (fst (run_ops nz rand ops ([], n)))
   \<and> getAllLoadedWaterBlocks (fst (loadWorldData (getWorldData (fst (run_ops nz rand ops ([], n)))) cs'))
     = getAllLoadedWaterBlocks (fst (run_ops nz rand ops ([], n)))
   \<and> set (getAllLoadedBlocks (fst (loadWorldData (getWorldData (fst (run_ops nz rand ops ([], n)))) cs')))
     = set (getAllLoadedBlocks (fst (run_ops nz rand ops ([], n))))
   \<and> set (getAllLoadedWaterBlocks (fst (loadWorldData (getWorldData (fst (run_ops nz rand ops ([], n)))) cs')))
     = set (getAllLoadedWaterBlocks (fst (run_ops nz rand ops ([], n))))"
proof -
  have "cache_ok (fst (run_ops nz rand ops ([], n)))"
    by (rule cache_ok_run_ops) (simp add: cache_ok_Nil)
  then have "loadWorldData (getWorldData (fst (run_ops nz rand ops ([], n)))) cs'
               = (fst (run_ops nz rand ops ([], n)), Inr ())"
    by (rule roundtrip_exact)
  then show ?thesis by simp
qed

section \<open>Refresh keeps the cache within the render distance\<close>

lemma map_of_fold_delete:
  "map_of (fold AList.delete ks cs) k = (if k \<in> set ks then None else map_of cs k)"
  by (induction ks arbitrary: cs) (simp_all add: delete_conv')

text \<open>The set \<open>loadedChunks\<close> only ever receives keys of the two loops.\<close>

lemma loaded_fold_bound:
  assumes "set (fst ls) \<subseteq> A" and "\<And>z. z \<in> set zs \<Longrightarrow> (x, z) \<in> A"
  shows "set (fst (fold (\<lambda>z (loaded, st). (List.insert (x, z) loaded, f x z st)) zs ls)) \<subseteq> A"
  using assms
proof (induction zs arbitrary: ls)
  case Nil
  then show ?case by simp
next
  case (Cons z zs)
  obtain loaded st where ls: "ls = (loaded, st)" by (cases ls)
  have "set (fst (List.insert (x, z) loaded, f x z st)) \<subseteq> A"
    using Cons.prems ls by simp
  then have "set (fst (fold (\<lambda>z (loaded, st). (List.insert (x, z) loaded, f x z st)) zs
                        (List.insert (x, z) loaded, f x z st))) \<subseteq> A"
    by (rule Cons.IH) (simp add: Cons.prems(2))
  then show ?case by (simp add: ls)
qed

lemma loaded_fold2_bound:
  assumes "set (fst ls) \<subseteq> A" and "\<And>x z. x \<in> set xs \<Longrightarrow> z \<in> set zs \<Longrightarrow> (x, z) \<in> A"
  shows "set (fst (fold (\<lambda>x. fold (\<lambda>z (loaded, st). (List.insert (x, z) loaded, f x z st)) zs) xs ls)) \<subseteq> A"
  using assms
proof (induction xs arbitrary: ls)
  case Nil
  then show ?case by simp
next
  case (Cons x xs)
  have "set (fst (fold (\<lambda>z (loaded, st). (List.insert (x, z) loaded, f x z st)) zs ls)) \<subseteq> A"
    using Cons.prems(1) by (rule loaded_fold_bound) (simp add: Cons.prems(2))
  then have "set (fst (fold (\<lambda>x. fold (\<lambda>z (loaded, st). (List.insert (x, z) loaded, f x z st)) zs) xs
                   (fold (\<lambda>z (loaded, st). (List.insert (x, z) loaded, f x z st)) zs ls))) \<subseteq> A"
    by (rule Cons.IH) (simp add: Cons.prems(2))
  then show ?case by simp
qed


lemma updateLoadedChunks_bound:
  assumes "getChunkCoord playerX playerZ = (pcx, pcz)"
    and "map_of (fst (updateLoadedChunks nz rand playerX playerZ s)) (kx, kz) \<noteq> None"
  shows "pcx - 3 \<le> kx \<and> kx \<le> pcx + 3 \<and> pcz - 3 \<le> kz \<and> kz \<le> pcz + 3"
proof -
  define A where "A = {(x, z). pcx - 3 \<le> x \<and> x \<le> pcx + 3 \<and> pcz - 3 \<le> z \<and> z \<le> pcz + 3}"
  define r where
    "r = fold (\<lambda>x. fold (\<lambda>z (loaded, st). (List.insert (x, z) loaded, snd (getOrGenerateChunk nz rand x z st)))
                   [pcz - 3 .. pcz + 3]) [pcx - 3 .. pcx + 3] ([], s)"
  obtain loaded cs n where r: "r = (loaded, (cs, n))"
    by (cases r) auto
  have "set (fst r) \<subseteq> A"
    unfolding r_def by (rule loaded_fold2_bound) (simp_all add: A_def)
  then have sub: "set loaded \<subseteq> A" by (simp add: r)
  have res: "fst (updateLoadedChunks nz rand playerX playerZ s) =
          fold AList.delete (map fst (filter (\<lambda>(key, chunk). key \<notin> set loaded) cs)) cs"
    using r by (simp add: updateLoadedChunks_def assms(1) Let_def r_def)
  have "(kx, kz) \<in> set loaded"
  proof (rule ccontr)
    assume notin: "(kx, kz) \<notin> set loaded"
    have k: "(kx, kz) \<notin> set (map fst (filter (\<lambda>(key, chunk). key \<notin> set loaded) cs))"
      using assms(2) unfolding res map_of_fold_delete by (simp split: if_splits)
    have "map_of cs (kx, kz) \<noteq> None"
      using assms(2) unfolding res map_of_fold_delete by (simp split: if_splits)
    then obtain c where "map_of cs (kx, kz) = Some c" by blast
    then have "((kx, kz), c) \<in> set cs" by (rule map_of_SomeD)
    then have "((kx, kz), c) \<in> set (filter (\<lambda>(key, chunk). key \<notin> set loaded) cs)"
      using notin by simp
    then have "fst ((kx, kz), c) \<in> fst ` set (filter (\<lambda>(key, chunk). key \<notin> set loaded) cs)"
      by (rule imageI)
    with k show False by simp
  qed
  then show ?thesis using sub by (auto simp: A_def)
qed

section \<open>Restoring malformed payloads\<close>

text \<open>
  A chunk record without a \<open>blocks\<close> field is loaded, as a chunk with no blocks, in place of
  the cache: the result is neither the cache as it was, nor an empty cache, nor fresh
  terrain, also through \<open>WorldManager\<close>.
\<close>

theorem loadWorldData_malformed_counterexample:
  "loadWorldData
     (WorldData [((100, 100), ChunkRecord \<lparr>dataX = 100, dataZ = 100, dataBlocks = Absent,
                                           dataWaterBlocks = Listed [], dataGenerated = True\<rparr>)])
     [((5, 5), \<lparr>chunkX = 5, chunkZ = 5, blocks = [], waterBlocks = [], generated = True\<rparr>)]
     = ([((100, 100), \<lparr>chunkX = 100, chunkZ = 100, blocks = [], waterBlocks = [], generated = True\<rparr>)],
        Inr ())
   \<and> fst (loadWorldData
        (WorldData [((100, 100), ChunkRecord \<lparr>dataX = 100, dataZ = 100, dataBlocks = Absent,
                                              dataWaterBlocks = Listed [], dataGenerated = True\<rparr>)])
        [((5, 5), \<lparr>chunkX = 5, chunkZ = 5, blocks = [], waterBlocks = [], generated = True\<rparr>)])
       \<noteq> [((5, 5), \<lparr>chunkX = 5, chunkZ = 5, blocks = [], waterBlocks = [], generated = True\<rparr>)]
   \<and> fst (loadWorldData
        (WorldData [((100, 100), ChunkRecord \<lparr>dataX = 100, dataZ = 100, dataBlocks = Absent,
                                              dataWaterBlocks = Listed [], dataGenerated = True\<rparr>)])
        [((5, 5), \<lparr>chunkX = 5, chunkZ = 5, blocks = [], waterBlocks = [], generated = True\<rparr>)])
       \<noteq> []
   \<and> fst (loadWorldData
        (WorldData [((100, 100), ChunkRecord \<lparr>dataX = 100, dataZ = 100, dataBlocks = Absent,
                                              dataWaterBlocks = Listed [], dataGenerated = True\<rparr>)])
        [((5, 5), \<lparr>chunkX = 5, chunkZ = 5, blocks = [], waterBlocks = [], generated = True\<rparr>)])
       \<noteq> fst (generateTerrain (\<lambda>x z. 0) (\<lambda>i. 0)
                ([((5, 5), \<lparr>chunkX = 5, chunkZ = 5, blocks = [], waterBlocks = [], generated = True\<rparr>)], 0))
   \<and> fst (fst (WorldManager_loadWorldData (\<lambda>x z. 0) (\<lambda>i. 0)
        (WorldData [((100, 100), ChunkRecord \<lparr>dataX = 100, dataZ = 100, dataBlocks = Absent,
                                              dataWaterBlocks = Listed [], dataGenerated = True\<rparr>)])
        ([((5, 5), \<lparr>chunkX = 5, chunkZ = 5, blocks = [], waterBlocks = [], generated = True\<rparr>)], 0)))
       = [((100, 100), \<lparr>chunkX = 100, chunkZ = 100, blocks = [], waterBlocks = [], generated = True\<rparr>)]"
proof -
  let ?d = "WorldData [((100, 100), ChunkRecord \<lparr>dataX = 100, dataZ = 100, dataBlocks = Absent,
                                          dataWaterBlocks = Listed [], dataGenerated = True\<rparr>)]"
  let ?cs = "[((5, 5), \<lparr>chunkX = 5, chunkZ = 5, blocks = [], waterBlocks = [], generated = True\<rparr>)] :: chunks"
  have l: "loadWorldData ?d ?cs =
      ([((100, 100), \<lparr>chunkX = 100, chunkZ = 100, blocks = [], waterBlocks = [], generated = True\<rparr>)],
        Inr ())"
    by (simp add: loadWorldData_def loadChunk_def loadEntries_def)
  have c: "getChunkCoord 0 0 = (0, 0)" by (simp add: getChunkCoord_def)
  have none: "map_of (fst (generateTerrain (\<lambda>x z. 0) (\<lambda>i. 0) (?cs, 0))) (100, 100) = None"
  proof (rule ccontr)
    assume "map_of (fst (generateTerrain (\<lambda>x z. 0) (\<lambda>i. 0) (?cs, 0))) (100, 100) \<noteq> None"
    then have "map_of (fst (updateLoadedChunks (\<lambda>x z. 0) (\<lambda>i. 0) 0 0 (?cs, 0))) (100, 100) \<noteq> None"
      by (simp add: generateTerrain_def)
    then show False
      using updateLoadedChunks_bound[OF c, where kx = 100 and kz = 100] by fastforce
  qed
  have f: "fst (loadWorldData ?d ?cs) \<noteq> fst (generateTerrain (\<lambda>x z. 0) (\<lambda>i. 0) (?cs, 0))"
  proof
    assume "fst (loadWorldData ?d ?cs) = fst (generateTerrain (\<lambda>x z. 0) (\<lambda>i. 0) (?cs, 0))"
    then have "map_of (fst (loadWorldData ?d ?cs)) (100, 100) = None"
      using none by simp
    then show False by (simp add: l)
  qed
  have old: "fst (loadWorldData ?d ?cs) \<noteq> ?cs" by (simp add: l)
  have ne: "fst (loadWorldData ?d ?cs) \<noteq> []" by (simp add: l)
  have m: "fst (fst (WorldManager_loadWorldData (\<lambda>x z. 0) (\<lambda>i. 0) ?d (?cs, 0)))
       = [((100, 100), \<lparr>chunkX = 100, chunkZ = 100, blocks = [], waterBlocks = [], generated = True\<rparr>)]"
    by (simp add: WorldManager_loadWorldData_def l)
  show ?thesis
    by (intro conjI l old ne f m)
qed

lemma setEntries_pairs:
  "list_all (\<lambda>e. e \<noteq> NotIterable) es \<Longrightarrow>
   setEntries es m = Inr (fold (\<lambda>(k, v). AList.update k v) (elementPairs es) m)"
  by (induction es m rule: setEntries.induct) simp_all

lemma loadEntries_listed:
  "pairs_or_missing f \<Longrightarrow>
   loadEntries f [] = Inr (fold (\<lambda>(k, v). AList.update k v) (listedEntries f) [])"
  by (cases f) (simp_all add: loadEntries_def listedEntries_def pairs_or_missing_def setEntries_pairs)

lemma loadChunk_restored:
  "pairs_or_missing (dataBlocks cd) \<Longrightarrow> pairs_or_missing (dataWaterBlocks cd) \<Longrightarrow>
   loadChunk (key, ChunkRecord cd) cs = Inr (AList.update key (restoredChunk cd) cs)"
  by (simp add: loadChunk_def loadEntries_listed restoredChunk_def)

lemma loadChunks_restored:
  "(\<And>key cd. (key, cd) \<in> set records \<Longrightarrow>
       pairs_or_missing (dataBlocks cd) \<and> pairs_or_missing (dataWaterBlocks cd))
   \<Longrightarrow> loadChunks (map (\<lambda>(key, cd). (key, ChunkRecord cd)) records) cs
         = (fold (\<lambda>(key, cd). AList.update key (restoredChunk cd)) records cs, Inr ())"
proof (induction records arbitrary: cs)
  case Nil
  then show ?case by simp
next
  case (Cons e records)
  obtain key cd where e: "e = (key, cd)" by (cases e)
  have "pairs_or_missing (dataBlocks cd)" "pairs_or_missing (dataWaterBlocks cd)"
    using Cons.prems[of key cd] e by simp_all
  then have l: "loadChunk (key, ChunkRecord cd) cs = Inr (AList.update key (restoredChunk cd) cs)"
    by (rule loadChunk_restored)
  have "loadChunks (map (\<lambda>(key, cd). (key, ChunkRecord cd)) records)
          (AList.update key (restoredChunk cd) cs)
        = (fold (\<lambda>(key, cd). AList.update key (restoredChunk cd)) records
             (AList.update key (restoredChunk cd) cs), Inr ())"
    using Cons.prems by (intro Cons.IH) auto
  then show ?case
    using l e by simp
qed

text \<open>
  C3 (amended). \<open>loadWorldData\<close> returns without throwing and leaves the cache as it was
  on a null payload and on a payload without a \<open>chunks\<close> field; \<open>WorldManager\<close>'s
  \<open>loadWorldData\<close> generates fresh terrain for a null payload. On a payload in which every
  chunk record is an object whose \<open>blocks\<close> and \<open>waterBlocks\<close> fields are each missing or
  an array of key-value pairs, it returns without throwing and replaces the cache by the
  chunks of the payload, a missing field giving an empty map.
\<close>

theorem loadWorldData_tolerant:
  "loadWorldData NullData cs = (cs, Inr ())
   \<and> loadWorldData NoChunks cs = (cs, Inr ())
   \<and> WorldManager_loadWorldData nz rand NullData s = (generateTerrain nz rand s, Inr ())
   \<and> WorldManager_loadWorldData nz rand NoChunks s = (s, Inr ())
   \<and> ((\<forall>(key, cd) \<in> set records.
          pairs_or_missing (dataBlocks cd) \<and> pairs_or_missing (dataWaterBlocks cd))
        \<longrightarrow> loadWorldData (WorldData (map (\<lambda>(key, cd). (key, ChunkRecord cd)) records)) cs
              = (fold (\<lambda>(key, cd). AList.update key (restoredChunk cd)) records [], Inr ()))"
proof -
  have "loadWorldData (WorldData (map (\<lambda>(key, cd). (key, ChunkRecord cd)) records)) cs
          = (fold (\<lambda>(key, cd). AList.update key (restoredChunk cd)) records [], Inr ())"
    if "\<forall>(key, cd) \<in> set records.
          pairs_or_missing (dataBlocks cd) \<and> pairs_or_missing (dataWaterBlocks cd)"
  proof -
    have "loadChunks (map (\<lambda>(key, cd). (key, ChunkRecord cd)) records) []
            = (fold (\<lambda>(key, cd). AList.update key (restoredChunk cd)) records [], Inr ())"
      using that by (intro loadChunks_restored) auto
    then show ?thesis by (simp add: loadWorldData_def)
  qed
  then show ?thesis
    by (cases s) (simp add: loadWorldData_def WorldManager_loadWorldData_def)
qed

theorem loadWorldData_tolerant_witness:
  "pairs_or_missing (dataBlocks \<lparr>dataX = 0, dataZ = 0, dataBlocks = Absent,
      dataWaterBlocks = Listed [KeyValue (0, 1, 0) \<lparr>wposition = (0, 1, 0), level = 1\<rparr>],
      dataGenerated = False\<rparr>)
   \<and> pairs_or_missing (dataWaterBlocks \<lparr>dataX = 0, dataZ = 0, dataBlocks = Absent,
      dataWaterBlocks = Listed [KeyValue (0, 1, 0) \<lparr>wposition = (0, 1, 0), level = 1\<rparr>],
      dataGenerated = False\<rparr>)
   \<and> loadWorldData (WorldData [((0, 0), ChunkRecord \<lparr>dataX = 0, dataZ = 0, dataBlocks = Absent,
      dataWaterBlocks = Listed [KeyValue (0, 1, 0) \<lparr>wposition = (0, 1, 0), level = 1\<rparr>],
      dataGenerated = False\<rparr>)])
        [((5, 5), \<lparr>chunkX = 5, chunkZ = 5, blocks = [], waterBlocks = [], generated = True\<rparr>)]
     = ([((0, 0), \<lparr>chunkX = 0, chunkZ = 0, blocks = [],
                   waterBlocks = [((0, 1, 0), \<lparr>wposition = (0, 1, 0), level = 1\<rparr>)],
                   generated = True\<rparr>)], Inr ())"
  using loadWorldData_tolerant[of
      "[((5, 5), \<lparr>chunkX = 5, chunkZ = 5, blocks = [], waterBlocks = [], generated = True\<rparr>)]"
      "\<lambda>x z. 0" "\<lambda>i. 0" "([], 0)"
      "[((0, 0), \<lparr>dataX = 0, dataZ = 0, dataBlocks = Absent,
      dataWaterBlocks = Listed [KeyValue (0, 1, 0) \<lparr>wposition = (0, 1, 0), level = 1\<rparr>],
      dataGenerated = False\<rparr>)]"]
  by (simp add: restoredChunk_def listedEntries_def pairs_or_missing_def)

text \<open>
  Outside those payloads the call can throw, after the cache was cleared and the records
  before the offending one were loaded: on a field that is no array, on an array element
  that is no pair, and on a null chunk record.
\<close>

lemma loadWorldData_throws:
  "loadWorldData
     (WorldData [((0, 0), ChunkRecord \<lparr>dataX = 0, dataZ = 0, dataBlocks = Listed [],
                                       dataWaterBlocks = Listed [], dataGenerated = True\<rparr>),
                 ((0, 1), ChunkRecord \<lparr>dataX = 0, dataZ = 1, dataBlocks = NonList,
                                       dataWaterBlocks = Listed [], dataGenerated = True\<rparr>)])
     [((5, 5), \<lparr>chunkX = 5, chunkZ = 5, blocks = [], waterBlocks = [], generated = True\<rparr>)]
     = ([((0, 0), \<lparr>chunkX = 0, chunkZ = 0, blocks = [], waterBlocks = [], generated = True\<rparr>)],
        Inl TypeError)"
  "loadWorldData
     (WorldData [((0, 0), ChunkRecord \<lparr>dataX = 0, dataZ = 0, dataBlocks = Listed [],
                                       dataWaterBlocks = Listed [], dataGenerated = True\<rparr>),
                 ((0, 1), ChunkRecord \<lparr>dataX = 0, dataZ = 1, dataBlocks = Listed [NotIterable],
                                       dataWaterBlocks = Listed [], dataGenerated = True\<rparr>)])
     [((5, 5), \<lparr>chunkX = 5, chunkZ = 5, blocks = [], waterBlocks = [], generated = True\<rparr>)]
     = ([((0, 0), \<lparr>chunkX = 0, chunkZ = 0, blocks = [], waterBlocks = [], generated = True\<rparr>)],
        Inl TypeError)"
  "loadWorldData
     (WorldData [((0, 0), ChunkRecord \<lparr>dataX = 0, dataZ = 0, dataBlocks = Listed [],
                                       dataWaterBlocks = Listed [], dataGenerated = True\<rparr>),
                 ((0, 1), NoRecord)])
     [((5, 5), \<lparr>chunkX = 5, chunkZ = 5, blocks = [], waterBlocks = [], generated = True\<rparr>)]
     = ([((0, 0), \<lparr>chunkX = 0, chunkZ = 0, blocks = [], waterBlocks = [], generated = True\<rparr>)],
        Inl TypeError)"
  by (simp_all add: loadWorldData_def loadChunk_def loadEntries_def)

section \<open>What generation writes\<close>

lemma gen_inv_blockD:
  assumes "gen_inv nz cx cz c" and "map_of (blocks c) (x, y, z) = Some b"
  shows "position b = (x, y, z) \<and> ((in_chunk cx cz x z \<and> 0 \<le> y \<and> y \<le> clampedHeight nz x z) \<or> 22 < y)"
proof -
  have "\<forall>x y z b. map_of (blocks c) (x, y, z) = Some b \<longrightarrow>
          position b = (x, y, z)
          \<and> ((in_chunk cx cz x z \<and> 0 \<le> y \<and> y \<le> clampedHeight nz x z) \<or> 22 < y)"
    using assms(1) unfolding gen_inv_def by (rule conjunct1)
  then show ?thesis using assms(2) by blast
qed

lemma gen_inv_waterD:
  assumes "gen_inv nz cx cz c" and "map_of (waterBlocks c) (x, y, z) = Some w"
  shows "w = \<lparr>wposition = (x, y, z), level = 1\<rparr> \<and> in_chunk cx cz x z \<and> clampedHeight nz x z < y \<and> y \<le> 20"
proof -
  have "\<forall>x y z w. map_of (waterBlocks c) (x, y, z) = Some w \<longrightarrow>
          w = \<lparr>wposition = (x, y, z), level = 1\<rparr>
          \<and> in_chunk cx cz x z \<and> clampedHeight nz x z < y \<and> y \<le> 20"
    using assms(1) unfolding gen_inv_def by (rule conjunct2)
  then show ?thesis using assms(2) by blast
qed

lemma gen_inv_setBlockInChunk:
  assumes "gen_inv nz cx cz c"
    and "(in_chunk cx cz x z \<and> 0 \<le> y \<and> y \<le> clampedHeight nz x z) \<or> 22 < y"
  shows "gen_inv nz cx cz (setBlockInChunk c x y z t)"
proof -
  have A: "\<forall>x' y' z' b. map_of (blocks (setBlockInChunk c x y z t)) (x', y', z') = Some b \<longrightarrow>
          position b = (x', y', z')
          \<and> ((in_chunk cx cz x' z' \<and> 0 \<le> y' \<and> y' \<le> clampedHeight nz x' z') \<or> 22 < y')"
  proof (intro allI impI)
    fix x' y' z' b
    assume m: "map_of (blocks (setBlockInChunk c x y z t)) (x', y', z') = Some b"
    show "position b = (x', y', z') \<and>
          ((in_chunk cx cz x' z' \<and> 0 \<le> y' \<and> y' \<le> clampedHeight nz x' z') \<or> 22 < y')"
    proof (cases "(x', y', z') = (x, y, z)")
      case True
      then have "b = \<lparr>position = (x, y, z), btype = t\<rparr>"
        using m by (simp add: setBlockInChunk_def update_conv')
      then show ?thesis using True assms(2) by auto
    next
      case False
      then have "map_of (blocks c) (x', y', z') = Some b"
        using m by (auto simp: setBlockInChunk_def update_conv' split: if_splits)
      then show ?thesis by (rule gen_inv_blockD[OF assms(1)])
    qed
  qed
  have B: "\<forall>x' y' z' w. map_of (waterBlocks (setBlockInChunk c x y z t)) (x', y', z') = Some w \<longrightarrow>
          w = \<lparr>wposition = (x', y', z'), level = 1\<rparr>
          \<and> in_chunk cx cz x' z' \<and> clampedHeight nz x' z' < y' \<and> y' \<le> 20"
  proof (intro allI impI)
    fix x' y' z' w
    assume "map_of (waterBlocks (setBlockInChunk c x y z t)) (x', y', z') = Some w"
    then have "map_of (waterBlocks c) (x', y', z') = Some w"
      by (simp add: setBlockInChunk_def)
    then show "w = \<lparr>wposition = (x', y', z'), level = 1\<rparr> \<and> in_chunk cx cz x' z'
                 \<and> clampedHeight nz x' z' < y' \<and> y' \<le> 20"
      by (rule gen_inv_waterD[OF assms(1)])
  qed
  show ?thesis unfolding gen_inv_def by (intro conjI) (rule A, rule B)
qed

lemma gen_inv_setWaterBlockInChunk:
  assumes "gen_inv nz cx cz c"
    and "in_chunk cx cz x z" and "clampedHeight nz x z < y" and "y \<le> 20"
  shows "gen_inv nz cx cz (setWaterBlockInChunk c x y z 1)"
proof -
  have A: "\<forall>x' y' z' b. map_of (blocks (setWaterBlockInChunk c x y z 1)) (x', y', z') = Some b \<longrightarrow>
          position b = (x', y', z')
          \<and> ((in_chunk cx cz x' z' \<and> 0 \<le> y' \<and> y' \<le> clampedHeight nz x' z') \<or> 22 < y')"
  proof (intro allI impI)
    fix x' y' z' b
    assume "map_of (blocks (setWaterBlockInChunk c x y z 1)) (x', y', z') = Some b"
    then have "map_of (blocks c) (x', y', z') = Some b"
      by (simp add: setWaterBlockInChunk_def)
    then show "position b = (x', y', z') \<and>
          ((in_chunk cx cz x' z' \<and> 0 \<le> y' \<and> y' \<le> clampedHeight nz x' z') \<or> 22 < y')"
      by (rule gen_inv_blockD[OF assms(1)])
  qed
  have B: "\<forall>x' y' z' w. map_of (waterBlocks (setWaterBlockInChunk c x y z 1)) (x', y', z') = Some w \<longrightarrow>
          w = \<lparr>wposition = (x', y', z'), level = 1\<rparr>
          \<and> in_chunk cx cz x' z' \<and> clampedHeight nz x' z' < y' \<and> y' \<le> 20"
  proof (intro allI impI)
    fix x' y' z' w
    assume m: "map_of (waterBlocks (setWaterBlockInChunk c x y z 1)) (x', y', z') = Some w"
    show "w = \<lparr>wposition = (x', y', z'), level = 1\<rparr> \<and> in_chunk cx cz x' z'
                 \<and> clampedHeight nz x' z' < y' \<and> y' \<le> 20"
    proof (cases "(x', y', z') = (x, y, z)")
      case True
      then have "w = \<lparr>wposition = (x, y, z), level = 1\<rparr>"
        using m by (simp add: setWaterBlockInChunk_def update_conv')
      then show ?thesis using True assms(2-4) by auto
    next
      case False
      then have "map_of (waterBlocks c) (x', y', z') = Some w"
        using m by (auto simp: setWaterBlockInChunk_def update_conv' split: if_splits)
      then show ?thesis by (rule gen_inv_waterD[OF assms(1)])
    qed
  qed
  show ?thesis unfolding gen_inv_def by (intro conjI) (rule A, rule B)
qed

lemma gen_inv_generateChunk:
  assumes "random_source rand"
  shows "gen_inv nz cx cz (fst (generateChunk nz rand n cx cz))"
proof (rule generateChunk_rule[where P = "gen_inv nz cx cz"])
  show "gen_inv nz cx cz \<lparr>chunkX = cx, chunkZ = cz, blocks = [], waterBlocks = [], generated = True\<rparr>"
    by (simp add: gen_inv_def)
next
  fix c :: Chunk and x y z :: int
  assume "gen_inv nz cx cz c" "in_chunk cx cz x z" "0 \<le> y" "y \<le> clampedHeight nz x z"
  then show "gen_inv nz cx cz (setBlockInChunk c x y z (terrainType y (clampedHeight nz x z)))"
    by (intro gen_inv_setBlockInChunk) simp_all
next
  fix c :: Chunk and x y z :: int
  assume "gen_inv nz cx cz c" "in_chunk cx cz x z" "clampedHeight nz x z < y" "y \<le> 20"
  then show "gen_inv nz cx cz (setWaterBlockInChunk c x y z 1)"
    by (rule gen_inv_setWaterBlockInChunk)
next
  fix c :: Chunk and x y z :: int and t :: BlockType
  assume "gen_inv nz cx cz c" "random_source rand \<longrightarrow> 22 < y"
  then show "gen_inv nz cx cz (setBlockInChunk c x y z t)"
    using assms by (intro gen_inv_setBlockInChunk) simp_all
qed

lemma in_chunk_getChunkCoord:
  "in_chunk cx cz x z \<Longrightarrow> getChunkCoord (real_of_int x) (real_of_int z) = (cx, cz)"
proof -
  assume "in_chunk cx cz x z"
  then have "x div 8 = cx" and "z div 8 = cz"
    unfolding in_chunk_def
    by (auto intro: int_div_pos_eq[where r = "x - 8 * cx"] int_div_pos_eq[where r = "z - 8 * cz"])
  then show ?thesis by (simp add: getChunkCoord_of_int)
qed

lemma gen_inv_chunk_excl:
  assumes "gen_inv nz cx cz c"
  shows "chunk_excl (cx, cz) c"
  unfolding chunk_excl_def
proof (intro conjI allI impI)
  fix x y z b assume "map_of (blocks c) (x, y, z) = Some b"
  then have "position b = (x, y, z)
    \<and> ((in_chunk cx cz x z \<and> 0 \<le> y \<and> y \<le> clampedHeight nz x z) \<or> 22 < y)"
    by (rule gen_inv_blockD[OF assms])
  then show "position b = (x, y, z)"
    and "getChunkCoord (real_of_int x) (real_of_int z) = (cx, cz) \<or> 20 < y"
    using in_chunk_getChunkCoord[of cx cz x z] by auto
next
  fix x y z w assume "map_of (waterBlocks c) (x, y, z) = Some w"
  then have "w = \<lparr>wposition = (x, y, z), level = 1\<rparr> \<and> in_chunk cx cz x z \<and> clampedHeight nz x z < y \<and> y \<le> 20"
    by (rule gen_inv_waterD[OF assms])
  then show "wposition w = (x, y, z)" "getChunkCoord (real_of_int x) (real_of_int z) = (cx, cz)" "y \<le> 20"
    using in_chunk_getChunkCoord[of cx cz x z] by auto
next
  fix k assume b: "map_of (blocks c) k \<noteq> None"
  obtain x y z where k: "k = (x, y, z)" by (cases k)
  show "map_of (waterBlocks c) k = None"
  proof (rule ccontr)
    assume "map_of (waterBlocks c) k \<noteq> None"
    then obtain w where "map_of (waterBlocks c) (x, y, z) = Some w" using k by auto
    then have w: "clampedHeight nz x z < y \<and> y \<le> 20"
      using gen_inv_waterD[OF assms] by blast
    from b obtain bl where "map_of (blocks c) (x, y, z) = Some bl" using k by auto
    then have "(in_chunk cx cz x z \<and> 0 \<le> y \<and> y \<le> clampedHeight nz x z) \<or> 22 < y"
      using gen_inv_blockD[OF assms] by blast
    with w show False by auto
  qed
qed

section \<open>Exclusivity of blocks and water\<close>

lemma chunk_excl_blockD:
  assumes "chunk_excl key c" and "map_of (blocks c) (x, y, z) = Some b"
  shows "position b = (x, y, z) \<and> (getChunkCoord (real_of_int x) (real_of_int z) = key \<or> 20 < y)"
proof -
  have "\<forall>x y z b. map_of (blocks c) (x, y, z) = Some b \<longrightarrow>
          position b = (x, y, z) \<and> (getChunkCoord (real_of_int x) (real_of_int z) = key \<or> 20 < y)"
    using assms(1) unfolding chunk_excl_def by (rule conjunct1)
  then show ?thesis using assms(2) by blast
qed

lemma chunk_excl_waterD:
  assumes "chunk_excl key c" and "map_of (waterBlocks c) (x, y, z) = Some w"
  shows "wposition w = (x, y, z) \<and> getChunkCoord (real_of_int x) (real_of_int z) = key \<and> y \<le> 20"
proof -
  have "\<forall>x y z w. map_of (waterBlocks c) (x, y, z) = Some w \<longrightarrow>
          wposition w = (x, y, z) \<and> getChunkCoord (real_of_int x) (real_of_int z) = key \<and> y \<le> 20"
    using assms(1) unfolding chunk_excl_def by (elim conjE)
  then show ?thesis using assms(2) by blast
qed

lemma chunk_excl_disjD:
  assumes "chunk_excl key c" and "map_of (blocks c) k \<noteq> None"
  shows "map_of (waterBlocks c) k = None"
proof -
  have "\<forall>k. map_of (blocks c) k \<noteq> None \<longrightarrow> map_of (waterBlocks c) k = None"
    using assms(1) unfolding chunk_excl_def by (elim conjE)
  then show ?thesis using assms(2) by blast
qed

lemma chunk_exclI:
  assumes "\<And>x y z b. map_of (blocks c) (x, y, z) = Some b \<Longrightarrow>
             position b = (x, y, z) \<and> (getChunkCoord (real_of_int x) (real_of_int z) = key \<or> 20 < y)"
    and "\<And>x y z w. map_of (waterBlocks c) (x, y, z) = Some w \<Longrightarrow>
             wposition w = (x, y, z) \<and> getChunkCoord (real_of_int x) (real_of_int z) = key \<and> y \<le> 20"
    and "\<And>k. map_of (blocks c) k \<noteq> None \<Longrightarrow> map_of (waterBlocks c) k = None"
  shows "chunk_excl key c"
  unfolding chunk_excl_def using assms by blast

lemma chunk_excl_place:
  assumes "chunk_excl key c" and "getChunkCoord (real_of_int px) (real_of_int pz) = key"
  shows "chunk_excl key
           (c\<lparr>waterBlocks := AList.delete (px, py, pz) (waterBlocks c),
              blocks := AList.update (px, py, pz) \<lparr>position = (px, py, pz), btype = t\<rparr> (blocks c)\<rparr>)"
    (is "chunk_excl key ?c'")
proof (rule chunk_exclI)
  fix x y z b assume m: "map_of (blocks ?c') (x, y, z) = Some b"
  show "position b = (x, y, z) \<and> (getChunkCoord (real_of_int x) (real_of_int z) = key \<or> 20 < y)"
  proof (cases "(x, y, z) = (px, py, pz)")
    case True
    then have "b = \<lparr>position = (px, py, pz), btype = t\<rparr>" using m by (simp add: update_conv')
    then show ?thesis using True assms(2) by auto
  next
    case False
    then have "map_of (blocks c) (x, y, z) = Some b"
      using m by (auto simp: update_conv' split: if_splits)
    then show ?thesis by (rule chunk_excl_blockD[OF assms(1)])
  qed
next
  fix x y z w assume "map_of (waterBlocks ?c') (x, y, z) = Some w"
  then have "map_of (waterBlocks c) (x, y, z) = Some w"
    by (auto simp: delete_conv' split: if_splits)
  then show "wposition w = (x, y, z) \<and> getChunkCoord (real_of_int x) (real_of_int z) = key \<and> y \<le> 20"
    by (rule chunk_excl_waterD[OF assms(1)])
next
  fix k assume b: "map_of (blocks ?c') k \<noteq> None"
  show "map_of (waterBlocks ?c') k = None"
  proof (cases "k = (px, py, pz)")
    case True
    then show ?thesis by (simp add: delete_conv')
  next
    case False
    then have "map_of (blocks c) k \<noteq> None" using b by (simp add: update_conv')
    then have "map_of (waterBlocks c) k = None" by (rule chunk_excl_disjD[OF assms(1)])
    then show ?thesis by (simp add: delete_conv')
  qed
qed

lemma chunk_excl_remove_block:
  assumes "chunk_excl key c"
  shows "chunk_excl key (c\<lparr>blocks := AList.delete p (blocks c)\<rparr>)" (is "chunk_excl key ?c'")
proof (rule chunk_exclI)
  fix x y z b assume "map_of (blocks ?c') (x, y, z) = Some b"
  then have "map_of (blocks c) (x, y, z) = Some b"
    by (auto simp: delete_conv' split: if_splits)
  then show "position b = (x, y, z) \<and> (getChunkCoord (real_of_int x) (real_of_int z) = key \<or> 20 < y)"
    by (rule chunk_excl_blockD[OF assms(1)])
next
  fix x y z w assume "map_of (waterBlocks ?c') (x, y, z) = Some w"
  then have "map_of (waterBlocks c) (x, y, z) = Some w" by simp
  then show "wposition w = (x, y, z) \<and> getChunkCoord (real_of_int x) (real_of_int z) = key \<and> y \<le> 20"
    by (rule chunk_excl_waterD[OF assms(1)])
next
  fix k assume "map_of (blocks ?c') k \<noteq> None"
  then have "map_of (blocks c) k \<noteq> None" by (auto simp: delete_conv' split: if_splits)
  then have "map_of (waterBlocks c) k = None" by (rule chunk_excl_disjD[OF assms(1)])
  then show "map_of (waterBlocks ?c') k = None" by simp
qed

lemma chunk_excl_remove_water:
  assumes "chunk_excl key c" and "getChunkCoord (real_of_int px) (real_of_int pz) = key" and "py \<le> 20"
  shows "chunk_excl key
           (c\<lparr>blocks := AList.delete (px, py, pz) (blocks c),
              waterBlocks := AList.update (px, py, pz) \<lparr>wposition = (px, py, pz), level = 1\<rparr>
                               (waterBlocks c)\<rparr>)"
    (is "chunk_excl key ?c'")
proof (rule chunk_exclI)
  fix x y z b assume "map_of (blocks ?c') (x, y, z) = Some b"
  then have "map_of (blocks c) (x, y, z) = Some b"
    by (auto simp: delete_conv' split: if_splits)
  then show "position b = (x, y, z) \<and> (getChunkCoord (real_of_int x) (real_of_int z) = key \<or> 20 < y)"
    by (rule chunk_excl_blockD[OF assms(1)])
next
  fix x y z w assume m: "map_of (waterBlocks ?c') (x, y, z) = Some w"
  show "wposition w = (x, y, z) \<and> getChunkCoord (real_of_int x) (real_of_int z) = key \<and> y \<le> 20"
  proof (cases "(x, y, z) = (px, py, pz)")
    case True
    then have "w = \<lparr>wposition = (px, py, pz), level = 1\<rparr>" using m by (simp add: update_conv')
    then show ?thesis using True assms(2,3) by auto
  next
    case False
    then have "map_of (waterBlocks c) (x, y, z) = Some w"
      using m by (auto simp: update_conv' split: if_splits)
    then show ?thesis by (rule chunk_excl_waterD[OF assms(1)])
  qed
next
  fix k assume b: "map_of (blocks ?c') k \<noteq> None"
  then have ne: "k \<noteq> (px, py, pz)" and "map_of (blocks c) k \<noteq> None"
    by (auto simp: delete_conv' split: if_splits)
  then have "map_of (waterBlocks c) k = None" using chunk_excl_disjD[OF assms(1)] by blast
  then show "map_of (waterBlocks ?c') k = None" using ne by (simp add: update_conv')
qed

lemma store_excl_update: "store_excl cs \<Longrightarrow> chunk_excl key c \<Longrightarrow> store_excl (AList.update key c cs)"
  unfolding store_excl_def by (simp add: update_conv')

lemma store_excl_fold_delete: "store_excl cs \<Longrightarrow> store_excl (fold AList.delete ks cs)"
  unfolding store_excl_def by (simp add: map_of_fold_delete)

lemma store_excl_Nil: "store_excl []"
  by (simp add: store_excl_def)


lemma store_excl_getOrGenerateChunk:
  assumes "random_source rand" and "store_excl (fst s)"
  shows "store_excl (fst (snd (getOrGenerateChunk nz rand cx cz s)))"
    and "chunk_excl (cx, cz) (fst (getOrGenerateChunk nz rand cx cz s))"
proof -
  obtain cs n where s: "s = (cs, n)" by (cases s)
  obtain c n' where g: "generateChunk nz rand n cx cz = (c, n')" by (cases "generateChunk nz rand n cx cz")
  have "gen_inv nz cx cz (fst (generateChunk nz rand n cx cz))"
    using assms(1) by (rule gen_inv_generateChunk)
  then have c: "chunk_excl (cx, cz) c" using g by (simp add: gen_inv_chunk_excl)
  show "store_excl (fst (snd (getOrGenerateChunk nz rand cx cz s)))"
    using assms(2) s g c by (auto simp: getOrGenerateChunk_def store_excl_update split: option.splits)
  show "chunk_excl (cx, cz) (fst (getOrGenerateChunk nz rand cx cz s))"
    using assms(2) s g c by (auto simp: getOrGenerateChunk_def store_excl_def split: option.splits)
qed

lemma store_excl_updateLoadedChunks:
  assumes "random_source rand" and "store_excl (fst s)"
  shows "store_excl (fst (updateLoadedChunks nz rand playerX playerZ s))"
proof -
  obtain pcx pcz where pc: "getChunkCoord playerX playerZ = (pcx, pcz)"
    by (cases "getChunkCoord playerX playerZ")
  define step where "step = (\<lambda>x z (ls :: (int \<times> int) list \<times> store).
      case ls of (loaded, st) \<Rightarrow> (List.insert (x, z) loaded, snd (getOrGenerateChunk nz rand x z st)))"
  have one: "store_excl (fst (snd (step x z ls)))" if "store_excl (fst (snd ls))" for x z ls
    using that by (cases ls) (simp add: step_def store_excl_getOrGenerateChunk(1)[OF assms(1)])
  have row: "store_excl (fst (snd (fold (step x) zs ls)))" if "store_excl (fst (snd ls))" for x zs ls
    using that by (rule fold_snd_invariant[where P = "\<lambda>st. store_excl (fst st)"]) (rule one)
  have all: "store_excl (fst (snd (fold (\<lambda>x. fold (step x) zs) xs ([], s))))" for xs zs
    by (rule fold_snd_invariant[where P = "\<lambda>st. store_excl (fst st)"]) (simp_all add: assms(2) row)
  define r where "r = fold (\<lambda>x. fold (step x) [pcz - 3 .. pcz + 3]) [pcx - 3 .. pcx + 3] ([], s)"
  obtain loaded cs n where r: "r = (loaded, (cs, n))"
    by (cases r) auto
  have "store_excl cs" using all[of "[pcz - 3 .. pcz + 3]" "[pcx - 3 .. pcx + 3]"] r by (simp add: r_def)
  then show ?thesis
    using r by (simp add: updateLoadedChunks_def pc step_def r_def store_excl_fold_delete Let_def)
qed

lemma store_excl_placeBlock:
  assumes "random_source rand" and "store_excl (fst s)"
  shows "store_excl (fst (placeBlock nz rand pos t s))"
proof -
  obtain px py pz where pos: "pos = (px, py, pz)" by (cases pos)
  obtain cx cz where cc: "getChunkCoord (real_of_int px) (real_of_int pz) = (cx, cz)"
    by (cases "getChunkCoord (real_of_int px) (real_of_int pz)")
  obtain chunk cs n where g: "getOrGenerateChunk nz rand cx cz s = (chunk, (cs, n))"
    by (metis prod.exhaust)
  have cs: "store_excl cs" and c: "chunk_excl (cx, cz) chunk"
    using store_excl_getOrGenerateChunk[OF assms, where nz = nz and cx = cx and cz = cz] g by simp_all
  have "chunk_excl (cx, cz)
          (chunk\<lparr>waterBlocks := AList.delete (px, py, pz) (waterBlocks chunk),
                 blocks := AList.update (px, py, pz) \<lparr>position = (px, py, pz), btype = t\<rparr>
                             (blocks chunk)\<rparr>)"
    using c cc by (rule chunk_excl_place)
  then show ?thesis
    using assms(2) cs by (simp add: placeBlock_def pos cc g store_excl_update)
qed

lemma store_excl_removeBlock:
  assumes "store_excl (fst s)"
  shows "store_excl (fst (removeBlock pos s))"
proof -
  obtain px py pz where pos: "pos = (px, py, pz)" by (cases pos)
  obtain cs n where s: "s = (cs, n)" by (cases s)
  obtain cx cz where cc: "getChunkCoord (real_of_int px) (real_of_int pz) = (cx, cz)"
    by (cases "getChunkCoord (real_of_int px) (real_of_int pz)")
  show ?thesis
  proof (cases "map_of cs (cx, cz)")
    case None
    then show ?thesis using assms by (simp add: removeBlock_def pos s cc)
  next
    case (Some chunk)
    then have c: "chunk_excl (cx, cz) chunk" using assms s by (auto simp: store_excl_def)
    have a: "chunk_excl (cx, cz) (chunk\<lparr>blocks := AList.delete (px, py, pz) (blocks chunk)\<rparr>)"
      using c by (rule chunk_excl_remove_block)
    have b: "chunk_excl (cx, cz)
               (chunk\<lparr>blocks := AList.delete (px, py, pz) (blocks chunk),
                      waterBlocks := AList.update (px, py, pz) \<lparr>wposition = (px, py, pz), level = 1\<rparr>
                                       (waterBlocks chunk)\<rparr>)" if "py \<le> 20"
      using c cc that by (rule chunk_excl_remove_water)
    show ?thesis
      using assms Some a b s by (simp add: removeBlock_def pos cc store_excl_update Let_def)
  qed
qed

lemma store_excl_apply_op:
  "random_source rand \<Longrightarrow> store_excl (fst s) \<Longrightarrow> store_excl (fst (apply_op nz rand a s))"
  by (cases a)
     (simp_all add: store_excl_placeBlock store_excl_removeBlock store_excl_updateLoadedChunks
        store_excl_getOrGenerateChunk(1))

lemma store_excl_run_ops:
  "random_source rand \<Longrightarrow> store_excl (fst s) \<Longrightarrow> store_excl (fst (run_ops nz rand ops s))"
  unfolding run_ops_def by (induction ops arbitrary: s) (simp_all add: store_excl_apply_op)

lemma store_excl_no_overlap:
  assumes "store_excl cs" and "map_of cs key1 = Some c1" and "map_of cs key2 = Some c2"
    and "map_of (blocks c1) k \<noteq> None"
  shows "map_of (waterBlocks c2) k = None"
proof (rule ccontr)
  assume "map_of (waterBlocks c2) k \<noteq> None"
  obtain x y z where k: "k = (x, y, z)" by (cases k)
  have e1: "chunk_excl key1 c1" and e2: "chunk_excl key2 c2"
    using assms(1-3) unfolding store_excl_def by blast+
  obtain w where w: "map_of (waterBlocks c2) (x, y, z) = Some w"
    using \<open>map_of (waterBlocks c2) k \<noteq> None\<close> k by auto
  obtain b where b: "map_of (blocks c1) (x, y, z) = Some b"
    using assms(4) k by auto
  have kw: "getChunkCoord (real_of_int x) (real_of_int z) = key2 \<and> y \<le> 20"
    using chunk_excl_waterD[OF e2 w] by simp
  have "getChunkCoord (real_of_int x) (real_of_int z) = key1 \<or> 20 < y"
    using chunk_excl_blockD[OF e1 b] by simp
  with kw have "key1 = key2" by auto
  then have "c1 = c2" using assms(2,3) by simp
  then have "map_of (waterBlocks c2) k = None"
    using chunk_excl_disjD[OF e2] assms(4) by simp
  with \<open>map_of (waterBlocks c2) k \<noteq> None\<close> show False by simp
qed


lemma getAllLoadedBlocks_mem:
  assumes "cache_ok cs" and "b \<in> set (getAllLoadedBlocks cs)"
  shows "\<exists>key c k. map_of cs key = Some c \<and> map_of (blocks c) k = Some b"
proof -
  from assms(2) obtain key c where kc: "(key, c) \<in> set cs" and b: "b \<in> snd ` set (blocks c)"
    unfolding getAllLoadedBlocks_def by (auto split: if_splits)
  from b obtain k where k: "(k, b) \<in> set (blocks c)" by auto
  have m: "map_of cs key = Some c"
    using assms(1) kc unfolding cache_ok_def by simp
  then have "chunk_ok c" using assms(1) unfolding cache_ok_def by blast
  then have "map_of (blocks c) k = Some b"
    using k unfolding chunk_ok_def by simp
  with m show ?thesis by blast
qed

lemma getAllLoadedWaterBlocks_mem:
  assumes "cache_ok cs" and "w \<in> set (getAllLoadedWaterBlocks cs)"
  shows "\<exists>key c k. map_of cs key = Some c \<and> map_of (waterBlocks c) k = Some w"
proof -
  from assms(2) obtain key c where kc: "(key, c) \<in> set cs" and b: "w \<in> snd ` set (waterBlocks c)"
    unfolding getAllLoadedWaterBlocks_def by (auto split: if_splits)
  from b obtain k where k: "(k, w) \<in> set (waterBlocks c)" by auto
  have m: "map_of cs key = Some c"
    using assms(1) kc unfolding cache_ok_def by simp
  then have "chunk_ok c" using assms(1) unfolding cache_ok_def by blast
  then have "map_of (waterBlocks c) k = Some w"
    using k unfolding chunk_ok_def by simp
  with m show ?thesis by blast
qed

text \<open>
  C4. For draws in \<open>[0, 1)\<close> and the store built from the empty cache by any finite sequence
  of \<open>placeBlock\<close>, \<open>removeBlock\<close>, \<open>getOrGenerateChunk\<close> and \<open>updateLoadedChunks\<close>: no key
  is present in the blocks map of a cached chunk and in the water map of a cached chunk
  (the same chunk or another), and no flattened block has the position of a flattened water
  block.
\<close>

theorem block_and_water_exclusive:
  assumes "random_source rand"
  shows "\<not> (\<exists>key1 c1 key2 c2 k.
              map_of (fst (run_ops nz rand ops ([], n))) key1 = Some c1
            \<and> map_of (fst (run_ops nz rand ops ([], n))) key2 = Some c2
            \<and> map_of (blocks c1) k \<noteq> None \<and> map_of (waterBlocks c2) k \<noteq> None)
       \<and> \<not> (\<exists>b w. b \<in> set (getAllLoadedBlocks (fst (run_ops nz rand ops ([], n))))
                 \<and> w \<in> set (getAllLoadedWaterBlocks (fst (run_ops nz rand ops ([], n))))
                 \<and> position b = wposition w)"
proof -
  define cs where "cs = fst (run_ops nz rand ops ([], n))"
  have ex: "store_excl cs"
    unfolding cs_def using assms by (rule store_excl_run_ops) (simp add: store_excl_Nil)
  have ok: "cache_ok cs"
    unfolding cs_def by (rule cache_ok_run_ops) (simp add: cache_ok_Nil)
  have keys: "\<not> (\<exists>key1 c1 key2 c2 k. map_of cs key1 = Some c1 \<and> map_of cs key2 = Some c2
                 \<and> map_of (blocks c1) k \<noteq> None \<and> map_of (waterBlocks c2) k \<noteq> None)"
  proof
    assume "\<exists>key1 c1 key2 c2 k. map_of cs key1 = Some c1 \<and> map_of cs key2 = Some c2
                 \<and> map_of (blocks c1) k \<noteq> None \<and> map_of (waterBlocks c2) k \<noteq> None"
    then obtain key1 c1 key2 c2 k where m1: "map_of cs key1 = Some c1" and m2: "map_of cs key2 = Some c2"
      and b: "map_of (blocks c1) k \<noteq> None" and w: "map_of (waterBlocks c2) k \<noteq> None"
      by blast
    have "map_of (waterBlocks c2) k = None"
      using ex m1 m2 b by (rule store_excl_no_overlap)
    with w show False by simp
  qed
  have pos: "\<not> (\<exists>b w. b \<in> set (getAllLoadedBlocks cs) \<and> w \<in> set (getAllLoadedWaterBlocks cs)
                 \<and> position b = wposition w)"
  proof
    assume "\<exists>b w. b \<in> set (getAllLoadedBlocks cs) \<and> w \<in> set (getAllLoadedWaterBlocks cs)
                 \<and> position b = wposition w"
    then obtain b w where b: "b \<in> set (getAllLoadedBlocks cs)"
      and w: "w \<in> set (getAllLoadedWaterBlocks cs)" and eq: "position b = wposition w" by blast
    obtain key1 c1 k1 where m1: "map_of cs key1 = Some c1" and b1: "map_of (blocks c1) k1 = Some b"
      using getAllLoadedBlocks_mem[OF ok b] by blast
    obtain key2 c2 k2 where m2: "map_of cs key2 = Some c2" and w2: "map_of (waterBlocks c2) k2 = Some w"
      using getAllLoadedWaterBlocks_mem[OF ok w] by blast
    have e1: "chunk_excl key1 c1" and e2: "chunk_excl key2 c2"
      using ex m1 m2 unfolding store_excl_def by blast+
    have "position b = k1" using chunk_excl_blockD[OF e1, of "fst k1" "fst (snd k1)" "snd (snd k1)" b] b1 by simp
    moreover have "wposition w = k2"
      using chunk_excl_waterD[OF e2, of "fst k2" "fst (snd k2)" "snd (snd k2)" w] w2 by simp
    ultimately have "k1 = k2" using eq by simp
    then have "map_of (waterBlocks c2) k1 \<noteq> None" using w2 by simp
    moreover have "map_of (blocks c1) k1 \<noteq> None" using b1 by simp
    ultimately have "\<exists>key1 c1 key2 c2 k. map_of cs key1 = Some c1 \<and> map_of cs key2 = Some c2
                 \<and> map_of (blocks c1) k \<noteq> None \<and> map_of (waterBlocks c2) k \<noteq> None"
      using m1 m2 by blast
    with keys show False by (rule notE)
  qed
  show ?thesis using keys pos unfolding cs_def by (rule conjI)
qed

theorem block_and_water_exclusive_witness:
  "random_source (\<lambda>i. 0)
   \<and> \<not> (\<exists>key1 c1 key2 c2 k.
              map_of (fst (run_ops (\<lambda>x z. 0) (\<lambda>i. 0)
                     [PlaceBlock (3, 10, 3) Stone, RemoveBlock (3, 10, 3), PlaceBlock (3, 10, 3) Wood] ([], 0)))
                key1 = Some c1
            \<and> map_of (fst (run_ops (\<lambda>x z. 0) (\<lambda>i. 0)
                     [PlaceBlock (3, 10, 3) Stone, RemoveBlock (3, 10, 3), PlaceBlock (3, 10, 3) Wood] ([], 0)))
                key2 = Some c2
            \<and> map_of (blocks c1) k \<noteq> None \<and> map_of (waterBlocks c2) k \<noteq> None)"
proof -
  have r: "random_source (\<lambda>i. 0)" by (simp add: random_source_def)
  show ?thesis
    using r block_and_water_exclusive[OF r, of "\<lambda>x z. 0"
        "[PlaceBlock (3, 10, 3) Stone, RemoveBlock (3, 10, 3), PlaceBlock (3, 10, 3) Wood]" 0]
    by blast
qed

section \<open>Sea fill\<close>

lemma fold_establish:
  assumes "x \<in> set xs" and "\<And>s. Q (f x s)" and "\<And>y s. Q s \<Longrightarrow> Q (f y s)"
  shows "Q (fold f xs s)"
  using assms(1)
proof (induction xs arbitrary: s)
  case Nil
  then show ?case by simp
next
  case (Cons a xs)
  show ?case
  proof (cases "x \<in> set xs")
    case True
    then show ?thesis using Cons.IH by simp
  next
    case False
    then have "a = x" using Cons.prems by simp
    have "Q (fold f xs (f x s))"
      by (rule fold_invariant[where Q = "\<lambda>_. True" and P = Q]) (simp_all add: assms(2,3))
    then show ?thesis using \<open>a = x\<close> by simp
  qed
qed

lemma water_present_setBlockInChunk:
  "map_of (waterBlocks c) k \<noteq> None \<Longrightarrow> map_of (waterBlocks (setBlockInChunk c x y z t)) k \<noteq> None"
  by (simp add: setBlockInChunk_def)

lemma water_present_setWaterBlockInChunk:
  "map_of (waterBlocks c) k \<noteq> None \<Longrightarrow> map_of (waterBlocks (setWaterBlockInChunk c x y z l)) k \<noteq> None"
  by (simp add: setWaterBlockInChunk_def update_conv')

lemma water_present_genColumn:
  assumes "map_of (waterBlocks (fst s)) k \<noteq> None"
  shows "map_of (waterBlocks (fst (genColumn nz rand wx wz s))) k \<noteq> None"
  by (rule genColumn_rule[where P = "\<lambda>c. map_of (waterBlocks c) k \<noteq> None"])
     (simp_all add: assms water_present_setBlockInChunk water_present_setWaterBlockInChunk)

lemma water_filled_genColumn:
  assumes "clampedHeight nz wx wz < y" and "y \<le> 20"
  shows "map_of (waterBlocks (fst (genColumn nz rand wx wz s))) (wx, y, wz) \<noteq> None"
proof -
  obtain c n where s: "s = (c, n)" by (cases s)
  define h where "h = clampedHeight nz wx wz"
  define c1 where "c1 = fold (\<lambda>y c. setBlockInChunk c wx y wz (terrainType y h)) [0 .. h] c"
  have lt: "h < 20" using assms h_def by simp
  have "map_of (waterBlocks (fold (\<lambda>y c. setWaterBlockInChunk c wx y wz 1) [h + 1 .. 20] c1)) (wx, y, wz) \<noteq> None"
  proof (rule fold_establish[where x = y and Q = "\<lambda>c. map_of (waterBlocks c) (wx, y, wz) \<noteq> None"])
    show "y \<in> set [h + 1 .. 20]" using assms h_def by simp
  next
    fix c' :: Chunk
    show "map_of (waterBlocks (setWaterBlockInChunk c' wx y wz 1)) (wx, y, wz) \<noteq> None"
      by (simp add: setWaterBlockInChunk_def update_conv')
  next
    fix y' :: int and c' :: Chunk
    assume "map_of (waterBlocks c') (wx, y, wz) \<noteq> None"
    then show "map_of (waterBlocks (setWaterBlockInChunk c' wx y' wz 1)) (wx, y, wz) \<noteq> None"
      by (rule water_present_setWaterBlockInChunk)
  qed
  moreover have "genColumn nz rand wx wz s =
          (fold (\<lambda>y c. setWaterBlockInChunk c wx y wz 1) [h + 1 .. 20] c1, n)"
    using lt by (simp add: genColumn_def s Let_def h_def c1_def)
  ultimately show ?thesis by simp
qed

lemma water_filled_generateChunk:
  assumes "in_chunk cx cz x z" and "clampedHeight nz x z < y" and "y \<le> 20"
  shows "map_of (waterBlocks (fst (generateChunk nz rand n cx cz))) (x, y, z) \<noteq> None"
proof -
  define Q where "Q = (\<lambda>s :: Chunk \<times> nat. map_of (waterBlocks (fst s)) (x, y, z) \<noteq> None)"
  define lx where "lx = x - cx * 8"
  define lz where "lz = z - cz * 8"
  have lx: "0 \<le> lx" "lx \<le> 7" and lz: "0 \<le> lz" "lz \<le> 7"
    and x: "cx * 8 + lx = x" and z: "cz * 8 + lz = z"
    using assms(1) by (simp_all add: in_chunk_def lx_def lz_def)
  have keep: "Q (genColumn nz rand wx wz s)" if "Q s" for wx wz s
    using that unfolding Q_def by (rule water_present_genColumn)
  have keep_row: "Q (fold (\<lambda>localZ. genColumn nz rand wx (cz * 8 + localZ)) zs s)" if "Q s" for wx zs s
    by (rule fold_invariant[where Q = "\<lambda>_. True" and P = Q]) (simp_all add: that keep)
  have own: "Q (genColumn nz rand (cx * 8 + lx) (cz * 8 + lz) s)" for s
    unfolding Q_def x z using assms(2,3) by (rule water_filled_genColumn)
  have own_row: "Q (fold (\<lambda>localZ. genColumn nz rand (cx * 8 + lx) (cz * 8 + localZ)) [0 .. 7] s)" for s
    by (rule fold_establish[where x = lz and Q = Q]) (simp_all add: lz own keep del: upto.simps)
  have "Q (fold (\<lambda>localX. fold (\<lambda>localZ. genColumn nz rand (cx * 8 + localX) (cz * 8 + localZ)) [0 .. 7])
              [0 .. 7] (\<lparr>chunkX = cx, chunkZ = cz, blocks = [], waterBlocks = [], generated = True\<rparr>, n))"
    by (rule fold_establish[where x = lx and Q = Q]) (simp_all add: lx own_row keep_row del: upto.simps)
  then show ?thesis by (simp add: generateChunk_def Let_def Q_def)
qed

text \<open>
  C6. For draws in \<open>[0, 1)\<close>, for the chunk that \<open>generateChunk\<close> returns and every column
  \<open>(x, z)\<close> of it whose clamped surface height \<open>h\<close> is below 20, and every \<open>y\<close> with
  \<open>h < y \<le> 20\<close>: the chunk holds a water block of level 1 at \<open>(x, y, z)\<close> and no solid block
  there.
\<close>

theorem sea_fill:
  assumes "random_source rand" and "in_chunk cx cz x z"
    and "clampedHeight nz x z < 20" and "clampedHeight nz x z < y" and "y \<le> 20"
  shows "map_of (waterBlocks (fst (generateChunk nz rand n cx cz))) (x, y, z)
           = Some \<lparr>wposition = (x, y, z), level = 1\<rparr>
       \<and> map_of (blocks (fst (generateChunk nz rand n cx cz))) (x, y, z) = None"
proof -
  have g: "gen_inv nz cx cz (fst (generateChunk nz rand n cx cz))"
    using assms(1) by (rule gen_inv_generateChunk)
  have "map_of (waterBlocks (fst (generateChunk nz rand n cx cz))) (x, y, z) \<noteq> None"
    using assms(2,4,5) by (rule water_filled_generateChunk)
  then obtain w where w: "map_of (waterBlocks (fst (generateChunk nz rand n cx cz))) (x, y, z) = Some w"
    by blast
  then have "w = \<lparr>wposition = (x, y, z), level = 1\<rparr>"
    using gen_inv_waterD[OF g] by blast
  moreover have "map_of (blocks (fst (generateChunk nz rand n cx cz))) (x, y, z) = None"
  proof (rule ccontr)
    assume "map_of (blocks (fst (generateChunk nz rand n cx cz))) (x, y, z) \<noteq> None"
    then obtain b where "map_of (blocks (fst (generateChunk nz rand n cx cz))) (x, y, z) = Some b"
      by blast
    then have "(in_chunk cx cz x z \<and> 0 \<le> y \<and> y \<le> clampedHeight nz x z) \<or> 22 < y"
      using gen_inv_blockD[OF g] by blast
    then show False using assms(4,5) by auto
  qed
  ultimately show ?thesis using w by simp
qed

theorem sea_fill_witness:
  "random_source (\<lambda>i. 0) \<and> in_chunk 0 0 3 5
   \<and> clampedHeight (\<lambda>x z. - (3 / 2)) 3 5 < 20 \<and> clampedHeight (\<lambda>x z. - (3 / 2)) 3 5 < 19 \<and> (19::int) \<le> 20
   \<and> map_of (waterBlocks (fst (generateChunk (\<lambda>x z. - (3 / 2)) (\<lambda>i. 0) 0 0 0))) (3, 19, 5)
        = Some \<lparr>wposition = (3, 19, 5), level = 1\<rparr>
   \<and> map_of (blocks (fst (generateChunk (\<lambda>x z. - (3 / 2)) (\<lambda>i. 0) 0 0 0))) (3, 19, 5) = None"
proof -
  have r: "random_source (\<lambda>i. 0)" by (simp add: random_source_def)
  have i: "in_chunk 0 0 3 5" by (simp add: in_chunk_def)
  have h: "clampedHeight (\<lambda>x z. - (3 / 2)) 3 5 = 18" by (simp add: clampedHeight_def)
  have h1: "clampedHeight (\<lambda>x z. - (3 / 2)) 3 5 < 20" and h2: "clampedHeight (\<lambda>x z. - (3 / 2)) 3 5 < 19"
    by (simp_all add: h)
  show ?thesis
    using r i h1 h2 sea_fill[OF r i h1 h2, of 0] by simp
qed

section \<open>Leaves beyond the chunk border\<close>

lemma block_present_setBlockInChunk:
  "map_of (blocks c) k \<noteq> None \<Longrightarrow> map_of (blocks (setBlockInChunk c x y z t)) k \<noteq> None"
  by (simp add: setBlockInChunk_def update_conv')

lemma block_present_setWaterBlockInChunk:
  "map_of (blocks c) k \<noteq> None \<Longrightarrow> map_of (blocks (setWaterBlockInChunk c x y z l)) k \<noteq> None"
  by (simp add: setWaterBlockInChunk_def)

lemma block_present_placeLeaf:
  assumes "map_of (blocks (fst s)) k \<noteq> None"
  shows "map_of (blocks (fst (placeLeaf rand wx wz crown lx lz s))) k \<noteq> None"
  by (rule placeLeaf_rule[where P = "\<lambda>c. map_of (blocks c) k \<noteq> None"])
     (simp_all add: assms block_present_setBlockInChunk)

lemma block_present_genColumn:
  assumes "map_of (blocks (fst s)) k \<noteq> None"
  shows "map_of (blocks (fst (genColumn nz rand wx wz s))) k \<noteq> None"
  by (rule genColumn_rule[where P = "\<lambda>c. map_of (blocks c) k \<noteq> None"])
     (simp_all add: assms block_present_setBlockInChunk block_present_setWaterBlockInChunk)

lemma leaf_placed:
  assumes "rand (snd s) < 7 / 10" and "\<not> (lx = wx \<and> lz = wz)" and "y = crown + 1"
  shows "map_of (blocks (fst (placeLeaf rand wx wz crown lx lz s))) (lx, y, lz) \<noteq> None"
proof -
  obtain c n where s: "s = (c, n)" by (cases s)
  define c1 where "c1 = setBlockInChunk c lx (crown + 1) lz Grass"
  have a: "map_of (blocks c1) (lx, y, lz) \<noteq> None"
    by (simp add: c1_def setBlockInChunk_def update_conv' assms(3))
  have b: "map_of (blocks (setBlockInChunk c1 lx (crown + 2) lz Grass)) (lx, y, lz) \<noteq> None"
    using a by (rule block_present_setBlockInChunk)
  have "placeLeaf rand wx wz crown lx lz s =
          (if rand (n + 1) < 5 / 10 then (setBlockInChunk c1 lx (crown + 2) lz Grass, n + 2)
           else (c1, n + 2))"
    using assms(1,2) by (simp add: placeLeaf_def s Let_def c1_def)
  then show ?thesis using a b by simp
qed

lemma corner_leaf_placed:
  assumes "\<And>i. rand i = 0"
  shows "map_of (blocks (fst (placeTree rand wx wz h s))) (wx - 2, h + 7, wz - 2) \<noteq> None"
proof -
  obtain c n where s: "s = (c, n)" by (cases s)
  define Q where "Q = (\<lambda>s :: Chunk \<times> nat. map_of (blocks (fst s)) (wx - 2, h + 7, wz - 2) \<noteq> None)"
  define c1 where "c1 = fold (\<lambda>treeY c. setBlockInChunk c wx treeY wz Wood) [h + 1 .. h + 6] c"
  have keep: "Q (placeLeaf rand wx wz (h + 6) lx lz s')" if "Q s'" for lx lz s'
    using that unfolding Q_def by (rule block_present_placeLeaf)
  have keep_row: "Q (fold (\<lambda>leafZ. placeLeaf rand wx wz (h + 6) lx leafZ) zs s')" if "Q s'" for lx zs s'
    by (rule fold_invariant[where Q = "\<lambda>_. True" and P = Q]) (simp_all add: that keep)
  have own: "Q (placeLeaf rand wx wz (h + 6) (wx - 2) (wz - 2) s')" for s'
    unfolding Q_def by (rule leaf_placed) (simp_all add: assms)
  have own_row: "Q (fold (\<lambda>leafZ. placeLeaf rand wx wz (h + 6) (wx - 2) leafZ) [wz - 2 .. wz + 2] s')" for s'
    by (rule fold_establish[where x = "wz - 2" and Q = Q]) (simp_all add: own keep)
  have "Q (fold (\<lambda>leafX. fold (\<lambda>leafZ. placeLeaf rand wx wz (h + 6) leafX leafZ) [wz - 2 .. wz + 2])
             [wx - 2 .. wx + 2] (c1, n + 1))"
    by (rule fold_establish[where x = "wx - 2" and Q = Q]) (simp_all add: own_row keep_row)
  then show ?thesis
    by (simp add: placeTree_def s Let_def assms Q_def c1_def)
qed

lemma corner_leaf_genColumn:
  assumes "\<And>i. rand i = 0" and "22 < clampedHeight nz wx wz" and "clampedHeight nz wx wz < 60"
  shows "map_of (blocks (fst (genColumn nz rand wx wz s)))
           (wx - 2, clampedHeight nz wx wz + 7, wz - 2) \<noteq> None"
proof -
  obtain c n where s: "s = (c, n)" by (cases s)
  define h where "h = clampedHeight nz wx wz"
  define c1 where "c1 = fold (\<lambda>y c. setBlockInChunk c wx y wz (terrainType y h)) [0 .. h] c"
  have "genColumn nz rand wx wz s = placeTree rand wx wz h (c1, n + 1)"
    using assms by (simp add: genColumn_def s Let_def h_def c1_def)
  then show ?thesis
    using corner_leaf_placed[OF assms(1), where wx = wx and wz = wz and h = h and s = "(c1, n + 1)"]
    by (simp add: h_def)
qed

lemma corner_leaf_generateChunk:
  assumes "\<And>i. rand i = 0"
    and "22 < clampedHeight nz (cx * 8) (cz * 8)" and "clampedHeight nz (cx * 8) (cz * 8) < 60"
  shows "map_of (blocks (fst (generateChunk nz rand n cx cz)))
           (cx * 8 - 2, clampedHeight nz (cx * 8) (cz * 8) + 7, cz * 8 - 2) \<noteq> None"
proof -
  define Q where "Q = (\<lambda>s :: Chunk \<times> nat.
      map_of (blocks (fst s)) (cx * 8 - 2, clampedHeight nz (cx * 8) (cz * 8) + 7, cz * 8 - 2) \<noteq> None)"
  have keep: "Q (genColumn nz rand wx wz s)" if "Q s" for wx wz s
    using that unfolding Q_def by (rule block_present_genColumn)
  have keep_row: "Q (fold (\<lambda>localZ. genColumn nz rand wx (cz * 8 + localZ)) zs s)" if "Q s" for wx zs s
    by (rule fold_invariant[where Q = "\<lambda>_. True" and P = Q]) (simp_all add: that keep)
  have own: "Q (genColumn nz rand (cx * 8) (cz * 8) s)" for s
    unfolding Q_def using assms by (rule corner_leaf_genColumn)
  have own_row: "Q (fold (\<lambda>localZ. genColumn nz rand (cx * 8) (cz * 8 + localZ)) [0 .. 7] s)" for s
    by (rule fold_establish[where x = 0 and Q = Q]) (simp_all add: own keep del: upto.simps)
  have "Q (fold (\<lambda>localX. fold (\<lambda>localZ. genColumn nz rand (cx * 8 + localX) (cz * 8 + localZ)) [0 .. 7])
              [0 .. 7] (\<lparr>chunkX = cx, chunkZ = cz, blocks = [], waterBlocks = [], generated = True\<rparr>, n))"
    by (rule fold_establish[where x = 0 and Q = Q]) (simp_all add: own_row keep_row del: upto.simps)
  then show ?thesis by (simp add: generateChunk_def Let_def Q_def)
qed

lemma noise_8_0_bounds: "5 \<le> noise 8 0 \<and> noise 8 0 \<le> 28"
proof -
  have pi2: "(2::real) \<le> pi" by (rule pi_ge_two)
  have pi4: "pi < 4" by (rule pi_less_4)
  have n: "noise 8 0 = sin (2 / 25) * 100 + sin (2 / 5) * 30 + sin (4 / 5) * 10"
    by (simp add: noise_def)
  have a0: "0 \<le> sin (2 / 25 :: real)" using pi2 by (intro sin_ge_zero) simp_all
  have b0: "0 \<le> sin (2 / 5 :: real)" using pi2 by (intro sin_ge_zero) simp_all
  have "sin (pi / 6) \<le> sin (4 / 5 :: real)"
    using pi2 pi4 by (intro sin_monotone_2pi_le) simp_all
  then have c0: "1 / 2 \<le> sin (4 / 5 :: real)" by (simp add: sin_30)
  have a1: "sin (2 / 25 :: real) \<le> 2 / 25" by (rule sin_x_le_x) simp
  have b1: "sin (2 / 5 :: real) \<le> 2 / 5" by (rule sin_x_le_x) simp
  have c1: "sin (4 / 5 :: real) \<le> 4 / 5" by (rule sin_x_le_x) simp
  show ?thesis unfolding n using a0 b0 c0 a1 b1 c1 by simp
qed

lemma clampedHeight_noise_8_0: "22 < clampedHeight noise 8 0 \<and> clampedHeight noise 8 0 < 60"
proof -
  have "25 \<le> 20 + noise 8 0" "20 + noise 8 0 < 49"
    using noise_8_0_bounds by simp_all
  then have "25 \<le> \<lfloor>20 + noise 8 0\<rfloor>" "\<lfloor>20 + noise 8 0\<rfloor> < 49"
    by (simp_all add: le_floor_iff floor_less_iff)
  then show ?thesis by (simp add: clampedHeight_def Let_def)
qed


lemma generateChunk_coords:
  "chunkX (fst (generateChunk nz rand n cx cz)) = cx \<and> chunkZ (fst (generateChunk nz rand n cx cz)) = cz"
  by (rule generateChunk_rule[where P = "\<lambda>c. chunkX c = cx \<and> chunkZ c = cz"])
     (simp_all add: setBlockInChunk_def setWaterBlockInChunk_def)

text \<open>
  C1 does not hold of the code. The canopy loop writes leaves at \<open>worldX - 2 .. worldX + 2\<close>
  and \<open>worldZ - 2 .. worldZ + 2\<close> into the chunk being generated, also where that leaves
  the chunk. For chunk \<open>(1, 0)\<close> with every draw 0, the first column \<open>(8, 0)\<close> has a height
  between 23 and 59 and gets a tree, and the chunk returned holds a leaf at
  \<open>(6, h + 7, -2)\<close>, whose chunk coordinate is \<open>(0, -1)\<close>. \<open>removeBlock\<close> at that position
  looks in chunk \<open>(0, -1)\<close> and changes nothing.
\<close>

theorem generateChunk_leaf_outside_chunk:
  "(\<exists>b. map_of (blocks (fst (generateChunk noise (\<lambda>i. 0) 0 1 0))) (6, clampedHeight noise 8 0 + 7, - 2)
          = Some b
       \<and> position b = (6, clampedHeight noise 8 0 + 7, - 2))
   \<and> getChunkCoord (real_of_int 6) (real_of_int (- 2)) = (0, - 1)
   \<and> chunkX (fst (generateChunk noise (\<lambda>i. 0) 0 1 0)) = 1
   \<and> chunkZ (fst (generateChunk noise (\<lambda>i. 0) 0 1 0)) = 0
   \<and> removeBlock (6, clampedHeight noise 8 0 + 7, - 2)
        (snd (getOrGenerateChunk noise (\<lambda>i. 0) 1 0 ([], 0)))
      = snd (getOrGenerateChunk noise (\<lambda>i. 0) 1 0 ([], 0))"
proof -
  let ?c = "fst (generateChunk noise (\<lambda>i. 0) 0 1 0)"
  have r: "random_source (\<lambda>i. 0)" by (simp add: random_source_def)
  have g: "gen_inv noise 1 0 ?c" using r by (rule gen_inv_generateChunk)
  have "map_of (blocks ?c) (1 * 8 - 2, clampedHeight noise (1 * 8) (0 * 8) + 7, 0 * 8 - 2) \<noteq> None"
    by (rule corner_leaf_generateChunk) (simp_all add: clampedHeight_noise_8_0)
  then obtain b where b: "map_of (blocks ?c) (6, clampedHeight noise 8 0 + 7, - 2) = Some b"
    by auto
  have p: "position b = (6, clampedHeight noise 8 0 + 7, - 2)"
    using gen_inv_blockD[OF g b] by simp
  have c: "getChunkCoord (real_of_int 6) (real_of_int (- 2)) = (0, - 1)"
    using getChunkCoord_of_int[of 6 "- 2"] by simp
  have x: "chunkX ?c = 1 \<and> chunkZ ?c = 0" by (rule generateChunk_coords)
  have rm: "removeBlock (6, clampedHeight noise 8 0 + 7, - 2)
        (snd (getOrGenerateChunk noise (\<lambda>i. 0) 1 0 ([], 0)))
      = snd (getOrGenerateChunk noise (\<lambda>i. 0) 1 0 ([], 0))"
    using c by (simp add: getOrGenerateChunk_def removeBlock_def split: prod.splits)
  show ?thesis using b p c x rm by blast
qed

end
